theory Spec2Isabelle
  imports Complex_Main
begin

section \<open>Benchmark result analysis of falcon-rust: the plotting scripts\<close>

text \<open>
  The repository holds three stand-alone Python scripts:
  \<^item> \<^verbatim>\<open>benchmark/plot_fverify_1024_benchmark.py\<close> (the fverify-1024 analysis),
  \<^item> \<^verbatim>\<open>plotting/plot_fverify_benchmark.py\<close> (the fverify-512/1024 analysis),
  \<^item> \<^verbatim>\<open>plotting/plot_fast_full_verify_benchmark.py\<close> (the stream-verification analysis).

  Each reads Criterion's \<^verbatim>\<open>estimates.json\<close> records, builds series and baselines, and
  draws them. The model below follows the scripts line by line up to the calls into
  matplotlib, which are recorded as data.

  Numbers. Python floats and numpy float64 values are modelled by exact rationals
  (\<^typ>\<open>rat\<close>); rounding and overflow are not modelled. The non-finite values that the
  scripts can produce on purpose (\<^verbatim>\<open>np.nan\<close>) or by a division by zero are constructors
  of their own, so that a division by zero is visible in a result instead of being
  HOL's \<open>x / 0 = 0\<close>.
\<close>

subsection \<open>Python errors\<close>

datatype error =
    FileNotFoundError
  | IsADirectoryError
  | JSONDecodeError
  | KeyError string
  | TypeError
  | IndexError
  | SystemExit int

text \<open>Sequencing of statements that may raise: the first exception ends the run.\<close>

definition bindE :: "error + 'a \<Rightarrow> ('a \<Rightarrow> error + 'b) \<Rightarrow> error + 'b" where
  "bindE m f = (case m of Inl e \<Rightarrow> Inl e | Inr x \<Rightarrow> f x)"

subsection \<open>numpy float64 values\<close>

datatype npfloat = Fin rat | PInf | NInf | NaN

text \<open>
  \<^verbatim>\<open>a / b\<close> on float64 operands: a zero denominator does not raise, numpy gives
  \<^verbatim>\<open>inf\<close>, \<^verbatim>\<open>-inf\<close> or \<^verbatim>\<open>nan\<close> (with a RuntimeWarning).
\<close>

definition np_div :: "rat \<Rightarrow> rat \<Rightarrow> npfloat" where
  "np_div a b =
     (if b \<noteq> 0 then Fin (a / b)
      else if a = 0 then NaN
      else if 0 < a then PInf else NInf)"

text \<open>\<^verbatim>\<open>x + q\<close> and \<^verbatim>\<open>q * c\<close> for a finite \<open>x\<close>, \<open>c\<close> and a float64 \<open>q\<close>.\<close>

fun np_add :: "rat \<Rightarrow> npfloat \<Rightarrow> npfloat" where
  "np_add x (Fin q) = Fin (x + q)"
| "np_add x PInf = PInf"
| "np_add x NInf = NInf"
| "np_add x NaN = NaN"

fun np_mul :: "npfloat \<Rightarrow> rat \<Rightarrow> npfloat" where
  "np_mul (Fin q) c = Fin (q * c)"
| "np_mul PInf c = (if c = 0 then NaN else if 0 < c then PInf else NInf)"
| "np_mul NInf c = (if c = 0 then NaN else if 0 < c then NInf else PInf)"
| "np_mul NaN c = NaN"

subsection \<open>The crossover (breakeven) finder\<close>

text \<open>
  The same loop occurs three times: \<^verbatim>\<open>plot_fverify_1024_benchmark.py\<close> lines 107-122
  and \<^verbatim>\<open>plot_fverify_benchmark.py\<close> lines 132-147 and 150-165.
  \<^verbatim>\<open>
    for i in range(len(means) - 1):
        if means[i] < verify_mean <= means[i + 1]:
            x1, x2 = indices[i], indices[i + 1]
            y1, y2 = means[i], means[i + 1]
            breakeven = x1 + (verify_mean - y1) * (x2 - x1) / (y2 - y1)
            ... draw the annotation ...
            break
  \<close>
  \<^verbatim>\<open>indices\<close> is an integer array, \<^verbatim>\<open>means\<close> a float64 array. An index into a numpy array
  beyond its length raises IndexError. The loop variable runs while
  \<open>i < len(means) - 1\<close>, written \<open>i + 1 < length means\<close> on naturals (both are false for
  every \<open>i\<close> when \<open>means\<close> is empty).
\<close>

definition getitem_arr :: "'a list \<Rightarrow> nat \<Rightarrow> error + 'a" where
  "getitem_arr xs i = (if i < length xs then Inr (xs ! i) else Inl IndexError)"

text \<open>The test of the loop: \<^verbatim>\<open>means[i] < verify_mean <= means[i + 1]\<close>.\<close>

definition brackets :: "rat list \<Rightarrow> rat \<Rightarrow> nat \<Rightarrow> bool" where
  "brackets means verify_mean i = (means ! i < verify_mean \<and> verify_mean \<le> means ! (i + 1))"

definition interpolate :: "rat \<Rightarrow> rat \<Rightarrow> rat \<Rightarrow> rat \<Rightarrow> rat \<Rightarrow> npfloat" where
  "interpolate x1 x2 y1 y2 verify_mean =
     np_add x1 (np_div ((verify_mean - y1) * (x2 - x1)) (y2 - y1))"

function breakeven_loop :: "int list \<Rightarrow> rat list \<Rightarrow> rat \<Rightarrow> nat \<Rightarrow> error + npfloat option" where
  "breakeven_loop indices means verify_mean i =
     (if i + 1 < length means then
        (if brackets means verify_mean i then
           bindE (getitem_arr indices i) (\<lambda>x1.
           bindE (getitem_arr indices (i + 1)) (\<lambda>x2.
             Inr (Some (interpolate (of_int x1) (of_int x2) (means ! i) (means ! (i + 1))
                          verify_mean))))
         else breakeven_loop indices means verify_mean (i + 1))
      else Inr None)"
  by pat_completeness auto
termination
  by (relation "measure (\<lambda>(indices, means, verify_mean, i). length means - i)") auto

declare breakeven_loop.simps [simp del]

definition find_breakeven :: "int list \<Rightarrow> rat list \<Rightarrow> rat \<Rightarrow> error + npfloat option" where
  "find_breakeven indices means verify_mean = breakeven_loop indices means verify_mean 0"

text \<open>
  What the loop body draws before its \<^verbatim>\<open>break\<close>. Texts, colours and styles are left
  out; the positions are kept.
\<close>

datatype draw =
    AxVLine npfloat
  | Annotate "npfloat \<times> rat" "npfloat \<times> rat"
  | AxHLine npfloat
  | FillBetween rat rat
  | ErrorBar "int list" "rat list" "rat list" "rat list"
  | PlotLine "rat list" "npfloat list"

text \<open>\<^verbatim>\<open>plot_fverify_1024_benchmark.py\<close>, lines 113-121.\<close>

definition annotate_breakeven :: "int list \<Rightarrow> rat list \<Rightarrow> rat \<Rightarrow> error + draw list" where
  "annotate_breakeven indices means verify_mean =
     bindE (find_breakeven indices means verify_mean) (\<lambda>r.
       case r of
         None \<Rightarrow> Inr []
       | Some breakeven \<Rightarrow>
           Inr [AxVLine breakeven,
                Annotate (breakeven, verify_mean)
                         (np_add 5 breakeven, verify_mean * (7 / 10))])"

text \<open>
  \<^verbatim>\<open>plot_fverify_benchmark.py\<close>, lines 140-146 (\<open>fx = 0.53\<close>, \<open>fy = 1.2\<close>) and lines
  158-164 (\<open>fx = 0.35\<close>, \<open>fy = 1.15\<close>).
\<close>

definition annotate_breakeven_scaled ::
  "rat \<Rightarrow> rat \<Rightarrow> int list \<Rightarrow> rat list \<Rightarrow> rat \<Rightarrow> error + draw list" where
  "annotate_breakeven_scaled fx fy indices means verify_mean =
     bindE (find_breakeven indices means verify_mean) (\<lambda>r.
       case r of
         None \<Rightarrow> Inr []
       | Some breakeven \<Rightarrow>
           Inr [Annotate (breakeven, verify_mean)
                         (np_mul breakeven fx, verify_mean * fy)])"

definition annotate_breakeven_512 :: "int list \<Rightarrow> rat list \<Rightarrow> rat \<Rightarrow> error + draw list" where
  "annotate_breakeven_512 = annotate_breakeven_scaled (53 / 100) (12 / 10)"

definition annotate_breakeven_1024 :: "int list \<Rightarrow> rat list \<Rightarrow> rat \<Rightarrow> error + draw list" where
  "annotate_breakeven_1024 = annotate_breakeven_scaled (35 / 100) (115 / 100)"

subsection \<open>Parsed JSON and Python's operations on it\<close>

text \<open>
  \<^verbatim>\<open>json.load\<close> gives dicts, lists, strings, numbers, booleans and \<^verbatim>\<open>None\<close>. A dict is
  an association list read with \<^const>\<open>map_of\<close>.
\<close>

datatype json =
    JNull
  | JBool bool
  | JNum rat
  | JStr string
  | JArr "json list"
  | JObj "(string \<times> json) list"

text \<open>
  \<^verbatim>\<open>d[k]\<close> with a string key: KeyError on a dict without the key, TypeError on every
  other JSON value (a list or a string wants an integer index, a number, a boolean and
  \<^verbatim>\<open>None\<close> are not subscriptable).
\<close>

fun getitem :: "json \<Rightarrow> string \<Rightarrow> error + json" where
  "getitem (JObj kvs) k = (case map_of kvs k of None \<Rightarrow> Inl (KeyError k) | Some v \<Rightarrow> Inr v)"
| "getitem _ k = Inl TypeError"

text \<open>
  Arithmetic is defined on numbers and on booleans (Python's \<^verbatim>\<open>bool\<close> is an \<^verbatim>\<open>int\<close>); on
  every other JSON value \<^verbatim>\<open>-\<close> and \<^verbatim>\<open>/\<close> raise TypeError.
  \<^const>\<open>None\<close> below means: not a number.
\<close>

fun as_number :: "json \<Rightarrow> rat option" where
  "as_number (JNum q) = Some q"
| "as_number (JBool b) = Some (if b then 1 else 0)"
| "as_number _ = None"

text \<open>\<^verbatim>\<open>a / c\<close> for a nonzero literal \<open>c\<close>.\<close>

definition py_truediv :: "json \<Rightarrow> rat \<Rightarrow> error + rat" where
  "py_truediv a c = (case as_number a of None \<Rightarrow> Inl TypeError | Some x \<Rightarrow> Inr (x / c))"

subsection \<open>The file system the scripts read\<close>

text \<open>
  A path is its list of components. A file is represented by what \<^verbatim>\<open>json.load\<close> makes
  of its text: a value, or a JSONDecodeError.
\<close>

type_synonym path = "string list"

datatype content = Unparsable | Parsed json

datatype node = Dir | File content

type_synonym fs = "path \<Rightarrow> node option"

definition exists_path :: "fs \<Rightarrow> path \<Rightarrow> bool" where
  "exists_path fs p = (fs p \<noteq> None)"

definition open_read :: "fs \<Rightarrow> path \<Rightarrow> error + content" where
  "open_read fs p =
     (case fs p of
        None \<Rightarrow> Inl FileNotFoundError
      | Some Dir \<Rightarrow> Inl IsADirectoryError
      | Some (File c) \<Rightarrow> Inr c)"

definition json_load :: "content \<Rightarrow> error + json" where
  "json_load c = (case c of Unparsable \<Rightarrow> Inl JSONDecodeError | Parsed data \<Rightarrow> Inr data)"

definition criterion_dir :: path where
  "criterion_dir = [''Users'', ''vamsi'', ''Github'', ''falcon-rust'', ''target'', ''criterion'']"

subsection \<open>String formatting\<close>

definition digit_char :: "nat \<Rightarrow> char" where
  "digit_char d = char_of (48 + d)"

function str_nat :: "nat \<Rightarrow> string" where
  "str_nat n = (if n < 10 then [digit_char n] else str_nat (n div 10) @ [digit_char (n mod 10)])"
  by pat_completeness auto
termination
  by (relation "measure id") auto

declare str_nat.simps [simp del]

text \<open>\<^verbatim>\<open>f"{n}"\<close> for an integer.\<close>

definition str_int :: "int \<Rightarrow> string" where
  "str_int n = (if n < 0 then ''-'' @ str_nat (nat (- n)) else str_nat (nat n))"

text \<open>
  \<^verbatim>\<open>f"{x:.2f}"\<close>: the value rounded to two decimals, ties to even, with a sign when it
  is negative.
\<close>

definition round_half_even :: "rat \<Rightarrow> int" where
  "round_half_even q =
     (let f = \<lfloor>q\<rfloor>; d = q - of_int f
      in if d < 1 / 2 then f else if 1 / 2 < d then f + 1 else if even f then f else f + 1)"

definition fmt_2f :: "rat \<Rightarrow> string" where
  "fmt_2f x =
     (let h = nat (round_half_even (\<bar>x\<bar> * 100));
          s = str_nat (h div 100) @ ''.'' @ [digit_char (h div 10 mod 10), digit_char (h mod 10)]
      in if x < 0 then ''-'' @ s else s)"

subsection \<open>The estimate loader of the two fverify scripts\<close>

text \<open>
  \<^verbatim>\<open>load_criterion_estimate\<close> of \<^verbatim>\<open>plot_fverify_1024_benchmark.py\<close> (lines 27-46) and of
  \<^verbatim>\<open>plot_fverify_benchmark.py\<close> (lines 39-59); the two are the same text.
  \<^verbatim>\<open>
    estimates_path = path / "new" / "estimates.json"
    if not estimates_path.exists():
        estimates_path = path / "base" / "estimates.json"
    with open(estimates_path) as f:
        data = json.load(f)
    mean = data["mean"]["point_estimate"]
    ci_lower = data["mean"]["confidence_interval"]["lower_bound"]
    ci_upper = data["mean"]["confidence_interval"]["upper_bound"]
    return {"mean": mean, "ci_lower": ci_lower, "ci_upper": ci_upper,
            "error_lower": mean - ci_lower, "error_upper": ci_upper - mean}
  \<close>
  The returned dict has five fixed keys and is a record. The two subtractions raise
  TypeError unless all three values read are numbers, which is the last case
  distinction of the model.
\<close>

record estimate =
  mean :: rat
  ci_lower :: rat
  ci_upper :: rat
  error_lower :: rat
  error_upper :: rat

text \<open>The first three lines, shared by all three loaders.\<close>

definition estimates_path :: "fs \<Rightarrow> path \<Rightarrow> path" where
  "estimates_path fs p =
     (let ep = p @ [''new'', ''estimates.json'']
      in if \<not> exists_path fs ep then p @ [''base'', ''estimates.json''] else ep)"

text \<open>From \<^verbatim>\<open>with open(estimates_path)\<close> to the \<^verbatim>\<open>return\<close>.\<close>

definition read_estimate :: "fs \<Rightarrow> path \<Rightarrow> error + estimate" where
  "read_estimate fs ep =
     bindE (open_read fs ep) (\<lambda>f.
     bindE (json_load f) (\<lambda>data.
     bindE (getitem data ''mean'') (\<lambda>m.
     bindE (getitem m ''point_estimate'') (\<lambda>mean_v.
     bindE (getitem data ''mean'') (\<lambda>m.
     bindE (getitem m ''confidence_interval'') (\<lambda>ci.
     bindE (getitem ci ''lower_bound'') (\<lambda>lower_v.
     bindE (getitem data ''mean'') (\<lambda>m.
     bindE (getitem m ''confidence_interval'') (\<lambda>ci.
     bindE (getitem ci ''upper_bound'') (\<lambda>upper_v.
       case (as_number mean_v, as_number lower_v, as_number upper_v) of
         (Some mu, Some lo, Some hi) \<Rightarrow>
           Inr \<lparr>mean = mu, ci_lower = lo, ci_upper = hi,
                error_lower = mu - lo, error_upper = hi - mu\<rparr>
       | _ \<Rightarrow> Inl TypeError))))))))))"

definition load_criterion_estimate :: "fs \<Rightarrow> path \<Rightarrow> error + estimate" where
  "load_criterion_estimate fs p = read_estimate fs (estimates_path fs p)"

subsection \<open>The fverify-1024 analysis: loading and the breakeven annotation\<close>

text \<open>
  \<^verbatim>\<open>main\<close> of \<^verbatim>\<open>plot_fverify_1024_benchmark.py\<close>, lines 51-122. The series loop:
  \<^verbatim>\<open>
    for n in index_counts:
        path = criterion_dir / "falcon-rust" / f"fast verify 1024 - {n} indices"
        if path.exists():
            estimate = load_criterion_estimate(path)
            estimate["indices"] = n
            fverify_data.append(estimate)
            print(f"fverify 1024 ({n} indices): {estimate['mean']/1000:.2f} us")
  \<close>
  (\<^verbatim>\<open>plot_fverify_benchmark.py\<close> runs the same loop for "512" and for "1024", lines 68-85.)
  A printed timing line is kept as its label and its value.
\<close>

record fverify_point = estimate +
  indices :: int

definition with_indices :: "estimate \<Rightarrow> int \<Rightarrow> fverify_point" where
  "with_indices e n =
     \<lparr>mean = mean e, ci_lower = ci_lower e, ci_upper = ci_upper e,
      error_lower = error_lower e, error_upper = error_upper e, indices = n\<rparr>"

datatype line = Text string | Timing string rat

definition fverify_path :: "string \<Rightarrow> int \<Rightarrow> path" where
  "fverify_path bits n =
     criterion_dir @ [''falcon-rust'', ''fast verify '' @ bits @ '' - '' @ str_int n @ '' indices'']"

fun load_fverify_data ::
  "fs \<Rightarrow> string \<Rightarrow> int list \<Rightarrow> fverify_point list \<times> line list \<Rightarrow>
   error + (fverify_point list \<times> line list)" where
  "load_fverify_data fs bits [] (fverify_data, out) = Inr (fverify_data, out)"
| "load_fverify_data fs bits (n # ns) (fverify_data, out) =
     (if exists_path fs (fverify_path bits n) then
        bindE (load_criterion_estimate fs (fverify_path bits n)) (\<lambda>estimate.
          load_fverify_data fs bits ns
            (fverify_data @ [with_indices estimate n],
             out @ [Timing (''fverify '' @ bits @ '' ('' @ str_int n @ '' indices)'')
                           (mean estimate / 1000)]))
      else load_fverify_data fs bits ns (fverify_data, out))"

definition index_counts_1024 :: "int list" where
  "index_counts_1024 = [1, 2, 4, 8, 16, 32, 48, 64]"

text \<open>
  The rest of \<^verbatim>\<open>main\<close>, lines 63-122: the two baselines are loaded without a check
  that they exist, the arrays are built, and the plot is drawn up to the breakeven
  annotation.
\<close>

text \<open>Lines 79-80 and 82-83: a baseline's level and the half-width of its band, in microseconds.\<close>

definition level :: "estimate \<Rightarrow> rat" where
  "level e = mean e / 1000"

definition half_width :: "estimate \<Rightarrow> rat" where
  "half_width e = (ci_upper e - ci_lower e) / 2 / 1000"

definition main_1024 :: "fs \<Rightarrow> error + (draw list \<times> line list)" where
  "main_1024 fs =
     bindE (load_fverify_data fs ''1024'' index_counts_1024 ([], [])) (\<lambda>(fverify_data, out).
     bindE (load_criterion_estimate fs (criterion_dir @ [''falcon-rust'', ''verify 1024'']))
       (\<lambda>verify_1024.
     bindE (load_criterion_estimate fs (criterion_dir @ [''c ffi'', ''verify 1024'']))
       (\<lambda>ffi_verify.
       let idx = map indices fverify_data;
           means = map (\<lambda>d. mean d / 1000) fverify_data;
           errors_lower = map (\<lambda>d. error_lower d / 1000) fverify_data;
           errors_upper = map (\<lambda>d. error_upper d / 1000) fverify_data;
           verify_mean = level verify_1024;
           verify_ci = half_width verify_1024;
           ffi_mean = level ffi_verify;
           ffi_ci = half_width ffi_verify
       in bindE (annotate_breakeven idx means verify_mean) (\<lambda>ann.
            Inr ([ErrorBar idx means errors_lower errors_upper,
                  AxHLine (Fin verify_mean),
                  FillBetween (verify_mean - verify_ci) (verify_mean + verify_ci),
                  AxHLine (Fin ffi_mean),
                  FillBetween (ffi_mean - ffi_ci) (ffi_mean + ffi_ci)] @ ann,
                 out @ [Timing ''verify 1024'' (mean verify_1024 / 1000),
                        Timing ''C FFI verify 1024'' (mean ffi_verify / 1000)])))))"

subsection \<open>The stream-verification analysis: its loader\<close>

text \<open>
  \<^verbatim>\<open>load_criterion_estimate\<close> of \<^verbatim>\<open>plot_fast_full_verify_benchmark.py\<close>, lines 33-47:
  \<^verbatim>\<open>
    estimates_path = path / "new" / "estimates.json"
    if not estimates_path.exists():
        estimates_path = path / "base" / "estimates.json"
    if not estimates_path.exists():
        return None
    with open(estimates_path) as f:
        data = json.load(f)
    mean = data["mean"]["point_estimate"]
    return {"mean": mean}
  \<close>
  The returned dict is an association list; \<^verbatim>\<open>None\<close> is \<^const>\<open>None\<close>.
\<close>

type_synonym pydict = "(string \<times> json) list"

text \<open>From \<^verbatim>\<open>with open(estimates_path)\<close> to the \<^verbatim>\<open>return\<close>.\<close>

definition read_mean :: "fs \<Rightarrow> path \<Rightarrow> error + pydict option" where
  "read_mean fs ep =
     bindE (open_read fs ep) (\<lambda>f.
     bindE (json_load f) (\<lambda>data.
     bindE (getitem data ''mean'') (\<lambda>m.
     bindE (getitem m ''point_estimate'') (\<lambda>mean_v.
       Inr (Some [(''mean'', mean_v)])))))"

definition load_criterion_estimate_stream :: "fs \<Rightarrow> path \<Rightarrow> error + pydict option" where
  "load_criterion_estimate_stream fs p =
     (if \<not> exists_path fs (estimates_path fs p) then Inr None
      else read_mean fs (estimates_path fs p))"

subsection \<open>The stream-verification analysis: series, median, plot\<close>

text \<open>
  The body of the two loading loops of \<^verbatim>\<open>main\<close> (lines 70-80 and 85-93), for one list
  of fractions and one way of naming the sub-directory:
  \<^verbatim>\<open>
    for frac in invalid_fractions:
        subdir_name = f"{variant}_baseline_invalid_{frac:.2f}"
        path = base_dir / subdir_name
        data = load_criterion_estimate(path)
        if data:
            results[variant]["baseline"].append(data["mean"] / 1_000_000)
        else:
            print(f"Warning: Missing data for {subdir_name}", flush=True)
            results[variant]["baseline"].append(None)
  \<close>
  \<^verbatim>\<open>if data\<close> is false for \<^verbatim>\<open>None\<close> and for an empty dict. The loop variable \<^verbatim>\<open>frac\<close>
  is \<open>fr\<close> below.
\<close>

definition truthy :: "pydict option \<Rightarrow> bool" where
  "truthy data = (case data of None \<Rightarrow> False | Some kvs \<Rightarrow> kvs \<noteq> [])"

definition getitem_dict :: "pydict option \<Rightarrow> string \<Rightarrow> error + json" where
  "getitem_dict data k =
     (case data of None \<Rightarrow> Inl TypeError | Some kvs \<Rightarrow> getitem (JObj kvs) k)"

text \<open>One pass through the loop body: the value appended and the lines printed.\<close>

definition load_cell :: "fs \<Rightarrow> path \<Rightarrow> string \<Rightarrow> error + (rat option \<times> line list)" where
  "load_cell fs base_dir subdir_name =
     bindE (load_criterion_estimate_stream fs (base_dir @ [subdir_name])) (\<lambda>data.
       if truthy data then
         bindE (getitem_dict data ''mean'') (\<lambda>mean_v.
         bindE (py_truediv mean_v 1000000) (\<lambda>ms. Inr (Some ms, [])))
       else Inr (None, [Text (''Warning: Missing data for '' @ subdir_name)]))"

fun load_series ::
  "fs \<Rightarrow> path \<Rightarrow> (rat \<Rightarrow> string) \<Rightarrow> rat list \<Rightarrow> rat option list \<times> line list \<Rightarrow>
   error + (rat option list \<times> line list)" where
  "load_series fs base_dir subdir_name [] (series, out) = Inr (series, out)"
| "load_series fs base_dir subdir_name (fr # frs) (series, out) =
     bindE (load_cell fs base_dir (subdir_name fr)) (\<lambda>(v, printed).
       load_series fs base_dir subdir_name frs (series @ [v], out @ printed))"

definition variants :: "string list" where
  "variants = [''falcon512'', ''falcon1024'']"

definition index_counts :: "int list" where
  "index_counts = [1, 8]"

definition invalid_fractions :: "rat list" where
  "invalid_fractions = [1 / 100, 1 / 10, 1 / 2, 9 / 10, 99 / 100]"

definition baseline_name :: "string \<Rightarrow> rat \<Rightarrow> string" where
  "baseline_name variant fr = variant @ ''_baseline_invalid_'' @ fmt_2f fr"

definition optimized_name :: "string \<Rightarrow> int \<Rightarrow> rat \<Rightarrow> string" where
  "optimized_name variant idx fr =
     variant @ ''_indices_'' @ str_int idx @ ''_invalid_'' @ fmt_2f fr"

record variant_results =
  baseline :: "rat option list"
  optimized :: "(int \<times> rat option list) list"

fun load_optimized ::
  "fs \<Rightarrow> path \<Rightarrow> string \<Rightarrow> int list \<Rightarrow> (int \<times> rat option list) list \<times> line list \<Rightarrow>
   error + ((int \<times> rat option list) list \<times> line list)" where
  "load_optimized fs base_dir variant [] (opt, out) = Inr (opt, out)"
| "load_optimized fs base_dir variant (idx # idxs) (opt, out) =
     bindE (load_series fs base_dir (optimized_name variant idx) invalid_fractions ([], out))
       (\<lambda>(series, out').
          load_optimized fs base_dir variant idxs (opt @ [(idx, series)], out'))"

fun load_results ::
  "fs \<Rightarrow> path \<Rightarrow> string list \<Rightarrow> (string \<times> variant_results) list \<times> line list \<Rightarrow>
   error + ((string \<times> variant_results) list \<times> line list)" where
  "load_results fs base_dir [] (results, out) = Inr (results, out)"
| "load_results fs base_dir (variant # vs) (results, out) =
     bindE (load_series fs base_dir (baseline_name variant) invalid_fractions ([], out))
       (\<lambda>(b, out1).
     bindE (load_optimized fs base_dir variant index_counts ([], out1))
       (\<lambda>(opt, out2).
          load_results fs base_dir vs
            (results @ [(variant, \<lparr>baseline = b, optimized = opt\<rparr>)], out2)))"

text \<open>
  \<^verbatim>\<open>[x if x is not None else np.nan for x in xs]\<close> (lines 110 and 134).
\<close>

definition nan_if_none :: "rat option list \<Rightarrow> npfloat list" where
  "nan_if_none xs = map (\<lambda>x. case x of None \<Rightarrow> NaN | Some v \<Rightarrow> Fin v) xs"

text \<open>
  \<^verbatim>\<open>np.nanmedian\<close> (numpy, not part of the repository): the median of the entries that
  are not NaN; NaN when there is none (numpy warns "All-NaN slice encountered"). The
  median of an even number of values is the mean of the two middle ones.
\<close>

fun finite_values :: "npfloat list \<Rightarrow> rat list" where
  "finite_values [] = []"
| "finite_values (Fin q # xs) = q # finite_values xs"
| "finite_values (_ # xs) = finite_values xs"

definition np_sort :: "npfloat list \<Rightarrow> npfloat list" where
  "np_sort xs =
     filter (\<lambda>x. x = NInf) xs @ map Fin (sort (finite_values xs)) @ filter (\<lambda>x. x = PInf) xs"

fun np_add2 :: "npfloat \<Rightarrow> npfloat \<Rightarrow> npfloat" where
  "np_add2 (Fin a) y = np_add a y"
| "np_add2 NaN y = NaN"
| "np_add2 PInf y = (if y = NInf \<or> y = NaN then NaN else PInf)"
| "np_add2 NInf y = (if y = PInf \<or> y = NaN then NaN else NInf)"

definition nanmedian :: "npfloat list \<Rightarrow> npfloat" where
  "nanmedian xs =
     (let s = np_sort xs; n = length s
      in if n = 0 then NaN
         else if odd n then s ! (n div 2)
         else np_mul (np_add2 (s ! (n div 2 - 1)) (s ! (n div 2))) (1 / 2))"

text \<open>The plotting loop of \<^verbatim>\<open>main\<close>, lines 106-140, for one variant.\<close>

definition plot_variant :: "variant_results \<Rightarrow> npfloat \<times> draw list" where
  "plot_variant r =
     (let baseline_raw = nan_if_none (baseline r);
          baseline_median = nanmedian baseline_raw
      in (baseline_median,
          AxHLine baseline_median #
          map (\<lambda>(idx, series). PlotLine invalid_fractions (nan_if_none series)) (optimized r)))"

text \<open>
  \<^verbatim>\<open>main\<close>, lines 50-140: the run stops with exit status 1 when the benchmark directory
  is missing; otherwise it loads every cell and draws every variant. The result holds
  the list \<^verbatim>\<open>baseline_medians\<close>, what was drawn and what was printed.
\<close>

definition stream_base_dir :: path where
  "stream_base_dir = criterion_dir @ [''stream_verification'']"

definition main_stream :: "fs \<Rightarrow> error + (npfloat list \<times> draw list \<times> line list)" where
  "main_stream fs =
     (if \<not> exists_path fs stream_base_dir then Inl (SystemExit 1)
      else
        bindE (load_results fs stream_base_dir variants
                 ([], [Text ''Starting benchmark plot generation...'']))
          (\<lambda>(results, out).
             let plots = map (\<lambda>(variant, r). plot_variant r) results
             in Inr (map fst plots, concat (map snd plots), out)))"

subsection \<open>Vocabulary of the specification\<close>

text \<open>
  The definitions of this subsection are not code of the scripts. They say, in the
  specification's words, what the statements below compare the code with.

  The value of a record at a dotted name such as \<^verbatim>\<open>mean.point_estimate\<close>.
\<close>

fun json_at :: "json \<Rightarrow> string list \<Rightarrow> json option" where
  "json_at j [] = Some j"
| "json_at (JObj kvs) (k # ks) = (case map_of kvs k of None \<Rightarrow> None | Some v \<Rightarrow> json_at v ks)"
| "json_at _ (k # ks) = None"

text \<open>A record file has a field; the field is numeric.\<close>

definition has_field :: "content \<Rightarrow> string list \<Rightarrow> bool" where
  "has_field c ks = (case c of Unparsable \<Rightarrow> False | Parsed data \<Rightarrow> json_at data ks \<noteq> None)"

definition has_number :: "content \<Rightarrow> string list \<Rightarrow> bool" where
  "has_number c ks =
     (case c of
        Unparsable \<Rightarrow> False
      | Parsed data \<Rightarrow> (case json_at data ks of None \<Rightarrow> False | Some v \<Rightarrow> as_number v \<noteq> None))"

definition point_estimate_field :: "string list" where
  "point_estimate_field = [''mean'', ''point_estimate'']"

definition lower_bound_field :: "string list" where
  "lower_bound_field = [''mean'', ''confidence_interval'', ''lower_bound'']"

definition upper_bound_field :: "string list" where
  "upper_bound_field = [''mean'', ''confidence_interval'', ''upper_bound'']"

text \<open>The non-missing members of a group, in order.\<close>

fun present :: "'a option list \<Rightarrow> 'a list" where
  "present [] = []"
| "present (None # xs) = present xs"
| "present (Some v # xs) = v # present xs"

text \<open>
  The statistical median of a non-empty list: the middle value of the sorted list, or
  the mean of the two middle values. A median has at least half of the values at or
  below it and at least half at or above it.
\<close>

definition median :: "rat list \<Rightarrow> rat" where
  "median vs =
     (let s = sort vs; n = length s in (s ! ((n - 1) div 2) + s ! (n div 2)) / 2)"

definition is_median :: "rat \<Rightarrow> rat list \<Rightarrow> bool" where
  "is_median m vs =
     (length vs \<le> 2 * length (filter (\<lambda>v. v \<le> m) vs) \<and>
      length vs \<le> 2 * length (filter (\<lambda>v. m \<le> v) vs))"

subsection \<open>Example records\<close>

text \<open>
  Records as Criterion writes them, used by the examples below: one with the mean and
  both confidence bounds, one with the mean alone.
\<close>

definition full_record :: "rat \<Rightarrow> rat \<Rightarrow> rat \<Rightarrow> json" where
  "full_record m lo hi =
     JObj [(''mean'',
            JObj [(''point_estimate'', JNum m),
                  (''confidence_interval'',
                   JObj [(''lower_bound'', JNum lo), (''upper_bound'', JNum hi)])])]"

definition mean_only_record :: "rat \<Rightarrow> json" where
  "mean_only_record m = JObj [(''mean'', JObj [(''point_estimate'', JNum m)])]"

section \<open>Properties\<close>

subsection \<open>Sequencing\<close>

lemma bindE_simps [simp]:
  "bindE (Inl e) f = Inl e"
  "bindE (Inr x) f = f x"
  by (simp_all add: bindE_def)

subsection \<open>The breakeven loop\<close>

lemma loop_end: "\<not> i + 1 < length means \<Longrightarrow> breakeven_loop idx means vm i = Inr None"
  by (simp add: breakeven_loop.simps)

lemma loop_skip:
  "i + 1 < length means \<Longrightarrow> \<not> brackets means vm i \<Longrightarrow>
   breakeven_loop idx means vm i = breakeven_loop idx means vm (i + 1)"
  by (subst breakeven_loop.simps) simp

lemma loop_hit:
  "i + 1 < length means \<Longrightarrow> brackets means vm i \<Longrightarrow>
   breakeven_loop idx means vm i =
     bindE (getitem_arr idx i) (\<lambda>x1. bindE (getitem_arr idx (i + 1)) (\<lambda>x2.
       Inr (Some (interpolate (of_int x1) (of_int x2) (means ! i) (means ! (i + 1)) vm))))"
  by (subst breakeven_loop.simps) simp

lemma loop_none:
  "(\<forall>j. i \<le> j \<and> j + 1 < length means \<longrightarrow> \<not> brackets means vm j) \<Longrightarrow>
   breakeven_loop idx means vm i = Inr None"
proof (induction idx means vm i rule: breakeven_loop.induct)
  case (1 idx means vm i)
  show ?case
  proof (cases "i + 1 < length means")
    case True
    with "1.prems" have nb: "\<not> brackets means vm i" by simp
    have "breakeven_loop idx means vm (i + 1) = Inr None"
      using "1.IH" True nb "1.prems" by simp
    with True nb show ?thesis by (simp add: loop_skip)
  next
    case False
    then show ?thesis by (simp add: loop_end)
  qed
qed

lemma loop_first:
  "k \<le> i \<Longrightarrow> i + 1 < length means \<Longrightarrow>
   (\<forall>j. k \<le> j \<and> j < i \<longrightarrow> \<not> brackets means vm j) \<Longrightarrow>
   breakeven_loop idx means vm k = breakeven_loop idx means vm i"
proof (induction "i - k" arbitrary: k)
  case 0
  then show ?case by simp
next
  case (Suc d)
  then have lt: "k < i" by simp
  with Suc.prems have nb: "\<not> brackets means vm k" by simp
  have d: "d = i - (k + 1)" using Suc.hyps(2) by simp
  have le: "k + 1 \<le> i" using lt by simp
  have rest: "\<forall>j. k + 1 \<le> j \<and> j < i \<longrightarrow> \<not> brackets means vm j"
    using Suc.prems(3) by simp
  have "breakeven_loop idx means vm (k + 1) = breakeven_loop idx means vm i"
    by (rule Suc.hyps(1)[OF d le Suc.prems(2) rest])
  moreover have "k + 1 < length means" using lt Suc.prems by simp
  ultimately show ?case using nb by (simp add: loop_skip)
qed

lemma interpolate_Fin:
  "y1 \<noteq> y2 \<Longrightarrow> interpolate x1 x2 y1 y2 vm = Fin (x1 + (vm - y1) * (x2 - x1) / (y2 - y1))"
  by (simp add: interpolate_def np_div_def)

lemma brackets_neq: "brackets means vm i \<Longrightarrow> means ! i \<noteq> means ! (i + 1)"
  by (auto simp: brackets_def)

lemma loop_Some_finite:
  "breakeven_loop idx means vm i = Inr (Some b) \<Longrightarrow> \<exists>q. b = Fin q"
proof (induction idx means vm i rule: breakeven_loop.induct)
  case (1 idx means vm i)
  show ?case
  proof (cases "i + 1 < length means")
    case False
    with "1.prems" show ?thesis by (simp add: loop_end)
  next
    case True
    show ?thesis
    proof (cases "brackets means vm i")
      case False
      with True "1.prems" "1.IH" show ?thesis by (simp add: loop_skip)
    next
      case True
      note br = this
      have ne: "means ! i \<noteq> means ! (i + 1)" by (rule brackets_neq[OF br])
      from \<open>i + 1 < length means\<close> br "1.prems" obtain x1 x2
        where "b = interpolate x1 x2 (means ! i) (means ! (i + 1)) vm"
        by (auto simp: loop_hit getitem_arr_def split: if_splits)
      then show ?thesis using interpolate_Fin[OF ne] by simp
    qed
  qed
qed


lemma getitem_arr_in [simp]: "i < length xs \<Longrightarrow> getitem_arr xs i = Inr (xs ! i)"
  by (simp add: getitem_arr_def)

lemma find_first:
  assumes len: "length idx = length means"
    and i: "i + 1 < length means"
    and br: "brackets means vm i"
    and first: "\<forall>j<i. \<not> brackets means vm j"
  shows "find_breakeven idx means vm =
           Inr (Some (interpolate (of_int (idx ! i)) (of_int (idx ! (i + 1)))
                        (means ! i) (means ! (i + 1)) vm))"
proof -
  have "breakeven_loop idx means vm 0 = breakeven_loop idx means vm i"
    using i first by (intro loop_first) auto
  also have "\<dots> = Inr (Some (interpolate (of_int (idx ! i)) (of_int (idx ! (i + 1)))
                        (means ! i) (means ! (i + 1)) vm))"
    using i br len by (simp add: loop_hit)
  finally show ?thesis by (simp add: find_breakeven_def)
qed

lemma brackets_take:
  "j + 1 < n \<Longrightarrow> brackets (take n means) vm j = brackets means vm j"
  by (simp add: brackets_def)


text \<open>
  C1 (amended). For every series and baseline, when the first adjacent pair in
  control-value order with \<open>y1 < baseline \<le> y2\<close> is the pair at positions \<open>i\<close>, \<open>i + 1\<close>,
  the crossover finder yields the linearly interpolated control value
  \<open>x1 + (baseline - y1) * (x2 - x1) / (y2 - y1)\<close>. (The falling series
  \<open>[(1,20),(2,15),(4,8)]\<close> with baseline \<open>10\<close> has no such pair, and no crossover is
  reported for it.)
\<close>

theorem breakeven_interpolates_first_rising_pair:
  assumes len: "length idx = length means"
    and i: "i + 1 < length means"
    and lo: "means ! i < verify_mean"
    and hi: "verify_mean \<le> means ! (i + 1)"
    and first: "\<forall>j<i. \<not> (means ! j < verify_mean \<and> verify_mean \<le> means ! (j + 1))"
  shows "find_breakeven idx means verify_mean =
           Inr (Some (Fin (of_int (idx ! i) +
                           (verify_mean - means ! i) *
                           (of_int (idx ! (i + 1)) - of_int (idx ! i)) /
                           (means ! (i + 1) - means ! i))))"
proof -
  have br: "brackets means verify_mean i" using lo hi by (simp add: brackets_def)
  have first': "\<forall>j<i. \<not> brackets means verify_mean j" using first by (simp add: brackets_def)
  have ne: "means ! i \<noteq> means ! (i + 1)" using lo hi by auto
  show ?thesis
    unfolding find_first[OF len i br first'] interpolate_Fin[OF ne] ..
qed

text \<open>
  The hypotheses hold for the rising series \<open>[(1,5),(2,8),(4,15)]\<close> with baseline \<open>10\<close>: the
  first bracketing pair is at positions 1 and 2, and the breakeven is \<open>2 + 4/7\<close>.
\<close>

theorem breakeven_interpolates_first_rising_pair_witness:
  "length [1, 2, 4 :: int] = length [5, 8, 15 :: rat] \<and>
   (1::nat) + 1 < length [5, 8, 15 :: rat] \<and>
   [5, 8, 15 :: rat] ! 1 < 10 \<and>
   (10::rat) \<le> [5, 8, 15] ! (1 + 1) \<and>
   \<not> ([5, 8, 15 :: rat] ! 0 < 10 \<and> (10::rat) \<le> [5, 8, 15] ! (0 + 1)) \<and>
   find_breakeven [1, 2, 4] [5, 8, 15] 10 = Inr (Some (Fin (2 + 4 / 7)))"
  using breakeven_interpolates_first_rising_pair [of "[1, 2, 4]" "[5, 8, 15]" 1 10] by simp

text \<open>
  C1 as stated fails on its own example: for the series \<open>[(1,20),(2,15),(4,8)]\<close> with
  baseline \<open>10\<close> neither pair satisfies \<open>y1 < baseline \<le> y2\<close> (\<open>20 < 10\<close> and \<open>15 < 10\<close> are
  false), so the loop ends without a breakeven and nothing is annotated; no crossover
  at \<open>2 + 10/7\<close> is reported.
\<close>

theorem falling_series_has_no_breakeven:
  "find_breakeven [1, 2, 4] [20, 15, 8] 10 = Inr None \<and>
   annotate_breakeven [1, 2, 4] [20, 15, 8] 10 = Inr []"
  by code_simp

text \<open>
  C2. For every series, the crossover finder reports only the first adjacent pair with
  \<open>y1 < baseline \<le> y2\<close> and stops scanning after it: the result is the interpolation at
  that pair, it is the same as for the series cut off after that pair (whatever
  follows, bracketing or not, is not looked at), and exactly one breakeven is annotated.
\<close>

theorem breakeven_only_first_pair:
  assumes len: "length idx = length means"
    and i: "i + 1 < length means"
    and br: "brackets means verify_mean i"
    and first: "\<forall>j<i. \<not> brackets means verify_mean j"
  shows "find_breakeven idx means verify_mean =
           Inr (Some (interpolate (of_int (idx ! i)) (of_int (idx ! (i + 1)))
                        (means ! i) (means ! (i + 1)) verify_mean)) \<and>
         find_breakeven idx means verify_mean =
           find_breakeven (take (i + 2) idx) (take (i + 2) means) verify_mean \<and>
         (\<exists>b. annotate_breakeven idx means verify_mean =
                Inr [AxVLine b, Annotate (b, verify_mean) (np_add 5 b, verify_mean * (7 / 10))]) \<and>
         (\<exists>b. annotate_breakeven_scaled fx fy idx means verify_mean =
                Inr [Annotate (b, verify_mean) (np_mul b fx, verify_mean * fy)])"
proof -
  let ?r = "Inr (Some (interpolate (of_int (idx ! i)) (of_int (idx ! (i + 1)))
                        (means ! i) (means ! (i + 1)) verify_mean))"
  have full: "find_breakeven idx means verify_mean = ?r"
    by (rule find_first[OF len i br first])
  have len': "length (take (i + 2) idx) = length (take (i + 2) means)"
    using len by simp
  have i': "i + 1 < length (take (i + 2) means)" using i by simp
  have br': "brackets (take (i + 2) means) verify_mean i"
    using br by (simp add: brackets_take)
  have first'': "\<forall>j<i. \<not> brackets (take (i + 2) means) verify_mean j"
    using first by (simp add: brackets_take)
  have cut: "find_breakeven (take (i + 2) idx) (take (i + 2) means) verify_mean = ?r"
    using find_first[OF len' i' br' first''] by simp
  show ?thesis
    using full cut by (simp add: annotate_breakeven_def annotate_breakeven_scaled_def)
qed

text \<open>
  The non-monotonic series \<open>[(1,5),(2,15),(4,5),(8,15)]\<close> with baseline \<open>10\<close>: the pairs at
  positions 0, 1 and at positions 2, 3 both bracket the baseline; only the first is
  reported, at \<open>3/2\<close>.
\<close>

theorem breakeven_only_first_pair_witness:
  "length [1, 2, 4, 8 :: int] = length [5, 15, 5, 15 :: rat] \<and>
   (0::nat) + 1 < length [5, 15, 5, 15 :: rat] \<and>
   brackets [5, 15, 5, 15] 10 0 \<and>
   brackets [5, 15, 5, 15] 10 2 \<and>
   find_breakeven [1, 2, 4, 8] [5, 15, 5, 15] 10 = Inr (Some (Fin (3 / 2))) \<and>
   find_breakeven [1, 2, 4, 8] [5, 15, 5, 15] 10 = find_breakeven [1, 2] [5, 15] 10 \<and>
   annotate_breakeven [1, 2, 4, 8] [5, 15, 5, 15] 10 =
     Inr [AxVLine (Fin (3 / 2)), Annotate (Fin (3 / 2), 10) (Fin (13 / 2), 7)]"
proof -
  have h1: "length [1, 2, 4, 8 :: int] = length [5, 15, 5, 15 :: rat]" by simp
  have h2: "(0::nat) + 1 < length [5, 15, 5, 15 :: rat]" by simp
  have h3: "brackets [5, 15, 5, 15] 10 0" by (simp add: brackets_def)
  have h4: "\<forall>j<0::nat. \<not> brackets [5, 15, 5, 15] 10 j" by simp
  have later: "brackets [5, 15, 5, 15] 10 2" by (simp add: brackets_def)
  note t = breakeven_only_first_pair [OF h1 h2 h3 h4, of "53 / 100" "12 / 10"]
  from t have v: "find_breakeven [1, 2, 4, 8] [5, 15, 5, 15] 10 = Inr (Some (Fin (3 / 2)))"
    by (simp add: interpolate_def np_div_def)
  from t have "find_breakeven [1, 2, 4, 8] [5, 15, 5, 15] 10 =
      find_breakeven (take (0 + 2) [1, 2, 4, 8]) (take (0 + 2) [5, 15, 5, 15]) 10"
    by blast
  then have c: "find_breakeven [1, 2, 4, 8] [5, 15, 5, 15] 10 = find_breakeven [1, 2] [5, 15] 10"
    by simp
  have a: "annotate_breakeven [1, 2, 4, 8] [5, 15, 5, 15] 10 =
     Inr [AxVLine (Fin (3 / 2)), Annotate (Fin (3 / 2), 10) (Fin (13 / 2), 7)]"
    using v by (simp add: annotate_breakeven_def)
  show ?thesis using h1 h2 h3 later v c a by blast
qed

text \<open>
  C5. For every series and baseline with no adjacent pair satisfying
  \<open>y1 < baseline \<le> y2\<close> (in particular a series entirely above the baseline, entirely
  below it, or with fewer than two points), the crossover finder ends with \<open>None\<close>, which
  is a result and not an error, and no crossover annotation is drawn.
\<close>

theorem no_bracketing_pair_no_breakeven:
  assumes "(\<forall>i. i + 1 < length means \<longrightarrow> \<not> (means ! i < verify_mean \<and> verify_mean \<le> means ! (i + 1)))
           \<or> (\<forall>y \<in> set means. verify_mean < y)
           \<or> (\<forall>y \<in> set means. y < verify_mean)
           \<or> length means < 2"
  shows "find_breakeven idx means verify_mean = Inr None \<and>
         annotate_breakeven idx means verify_mean = Inr [] \<and>
         annotate_breakeven_scaled fx fy idx means verify_mean = Inr []"
proof -
  have nb: "\<forall>j. 0 \<le> j \<and> j + 1 < length means \<longrightarrow> \<not> brackets means verify_mean j"
  proof (intro allI impI)
    fix j assume j: "0 \<le> j \<and> j + 1 < length means"
    then have m1: "means ! j \<in> set means" and m2: "means ! (j + 1) \<in> set means"
      by simp_all
    from assms consider
        (a) "\<not> (means ! j < verify_mean \<and> verify_mean \<le> means ! (j + 1))"
      | (b) "verify_mean < means ! j"
      | (c) "means ! (j + 1) < verify_mean"
      | (d) "length means < 2"
      using j m1 m2 by blast
    then show "\<not> brackets means verify_mean j"
    proof cases
      case a then show ?thesis by (simp add: brackets_def)
    next
      case b then show ?thesis by (simp add: brackets_def)
    next
      case c then show ?thesis by (simp add: brackets_def)
    next
      case d with j show ?thesis by simp
    qed
  qed
  have "find_breakeven idx means verify_mean = Inr None"
    unfolding find_breakeven_def by (rule loop_none[OF nb])
  then show ?thesis
    by (simp add: annotate_breakeven_def annotate_breakeven_scaled_def)
qed

text \<open>The series \<open>[(1,5),(2,4),(4,3)]\<close> lies entirely below the baseline \<open>10\<close>.\<close>

theorem no_bracketing_pair_no_breakeven_witness:
  "(5::rat) < 10 \<and> (4::rat) < 10 \<and> (3::rat) < 10 \<and>
   find_breakeven [1, 2, 4] [5, 4, 3] 10 = Inr None \<and>
   annotate_breakeven [1, 2, 4] [5, 4, 3] 10 = Inr [] \<and>
   annotate_breakeven_512 [1, 2, 4] [5, 4, 3] 10 = Inr []"
  using no_bracketing_pair_no_breakeven [of "[5, 4, 3]" 10 "[1, 2, 4]" "53 / 100" "12 / 10"]
  by (simp add: annotate_breakeven_512_def)

text \<open>
  C9. The crossover finder never divides by zero: every breakeven it yields is a finite
  number (a zero denominator would have given \<open>inf\<close> or \<open>nan\<close>); the test
  \<open>y1 < baseline \<le> y2\<close> makes \<open>y2 - y1\<close> nonzero; and a pair with \<open>y1 = y2\<close> is not
  interpolated, the scan goes on to the next pair.
\<close>

theorem breakeven_never_divides_by_zero:
  "(\<forall>b. breakeven_loop idx means verify_mean i = Inr (Some b) \<longrightarrow> (\<exists>q. b = Fin q)) \<and>
   (brackets means verify_mean i \<longrightarrow> means ! (i + 1) - means ! i \<noteq> 0) \<and>
   (i + 1 < length means \<and> means ! i = means ! (i + 1) \<longrightarrow>
      breakeven_loop idx means verify_mean i = breakeven_loop idx means verify_mean (i + 1))"
proof (intro conjI allI impI)
  fix b assume "breakeven_loop idx means verify_mean i = Inr (Some b)"
  then show "\<exists>q. b = Fin q" by (rule loop_Some_finite)
next
  assume "brackets means verify_mean i"
  then show "means ! (i + 1) - means ! i \<noteq> 0"
    using brackets_neq by fastforce
next
  assume a: "i + 1 < length means \<and> means ! i = means ! (i + 1)"
  then have "\<not> brackets means verify_mean i" using brackets_neq by blast
  with a show "breakeven_loop idx means verify_mean i = breakeven_loop idx means verify_mean (i + 1)"
    by (simp add: loop_skip)
qed

text \<open>
  The series \<open>[(1,5),(2,5),(4,15)]\<close> with baseline \<open>10\<close>: the first pair has \<open>y1 = y2\<close> and is
  passed over, the second pair gives the breakeven \<open>3\<close>.
\<close>

theorem breakeven_never_divides_by_zero_witness:
  "breakeven_loop [1, 2, 4] [5, 5, 15] 10 0 = breakeven_loop [1, 2, 4] [5, 5, 15] 10 1 \<and>
   breakeven_loop [1, 2, 4] [5, 5, 15] 10 1 = Inr (Some (Fin 3)) \<and>
   brackets [5, 5, 15] 10 1 \<and> [5, 5, 15 :: rat] ! (1 + 1) - [5, 5, 15] ! 1 \<noteq> 0"
proof -
  have skip: "breakeven_loop [1, 2, 4] [5, 5, 15] 10 0 = breakeven_loop [1, 2, 4] [5, 5, 15] 10 (0 + 1)"
    using breakeven_never_divides_by_zero [of "[1, 2, 4]" "[5, 5, 15]" 10 0] by simp
  have br: "brackets [5, 5, 15] 10 1" by (simp add: brackets_def)
  have ne: "[5, 5, 15 :: rat] ! (1 + 1) - [5, 5, 15] ! 1 \<noteq> 0"
    using breakeven_never_divides_by_zero [of "[1, 2, 4]" "[5, 5, 15]" 10 1] br by blast
  have v: "breakeven_loop [1, 2, 4] [5, 5, 15] 10 1 = Inr (Some (Fin 3))"
    by code_simp
  show ?thesis using skip br ne v by simp
qed

subsection \<open>The loaders\<close>

lemma bindE_Inr_iff: "bindE m f = Inr y \<longleftrightarrow> (\<exists>x. m = Inr x \<and> f x = Inr y)"
  by (cases m) simp_all

lemma getitem_Inr_iff:
  "getitem j k = Inr v \<longleftrightarrow> (\<exists>kvs. j = JObj kvs \<and> map_of kvs k = Some v)"
  by (cases j) (auto split: option.splits)

lemma getitem_json_at: "getitem j k = Inr v \<Longrightarrow> json_at j (k # ks) = json_at v ks"
  by (auto simp: getitem_Inr_iff)

lemma estimates_path_new:
  "exists_path fs (p @ [''new'', ''estimates.json'']) \<Longrightarrow>
   estimates_path fs p = p @ [''new'', ''estimates.json'']"
  by (simp add: estimates_path_def)

lemma estimates_path_base:
  "\<not> exists_path fs (p @ [''new'', ''estimates.json'']) \<Longrightarrow>
   estimates_path fs p = p @ [''base'', ''estimates.json'']"
  by (simp add: estimates_path_def)

lemma estimates_path_cong:
  "fs' (p @ [''new'', ''estimates.json'']) = fs (p @ [''new'', ''estimates.json'']) \<Longrightarrow>
   estimates_path fs' p = estimates_path fs p"
  by (simp add: estimates_path_def exists_path_def)

lemma read_estimate_cong: "fs' ep = fs ep \<Longrightarrow> read_estimate fs' ep = read_estimate fs ep"
  by (simp add: read_estimate_def open_read_def)

lemma read_mean_cong: "fs' ep = fs ep \<Longrightarrow> read_mean fs' ep = read_mean fs ep"
  by (simp add: read_mean_def open_read_def)

lemma read_estimate_absent: "\<not> exists_path fs ep \<Longrightarrow> read_estimate fs ep = Inl FileNotFoundError"
  by (simp add: read_estimate_def open_read_def exists_path_def)

lemma load_cell_absent:
  "load_criterion_estimate_stream fs (base_dir @ [nm]) = Inr None \<Longrightarrow>
   load_cell fs base_dir nm = Inr (None, [Text (''Warning: Missing data for '' @ nm)])"
  by (simp add: load_cell_def truthy_def)

lemma load_stream_absent:
  "\<not> exists_path fs (p @ [''new'', ''estimates.json'']) \<Longrightarrow>
   \<not> exists_path fs (p @ [''base'', ''estimates.json'']) \<Longrightarrow>
   load_criterion_estimate_stream fs p = Inr None"
  by (simp add: load_criterion_estimate_stream_def estimates_path_base)

text \<open>
  C3 (amended). For every storage location, each loader first attempts the "new" run
  variant and falls back to the "base" run variant when the new one does not exist, and
  it looks at no third location (its result depends on nothing but these two paths).
  When neither variant exists, the loader of the stream-verification analysis returns
  \<open>None\<close>, which is not an error: the cell is recorded as missing with a warning and the
  run goes on. The loader of the two fverify analyses has no such result: there the
  \<^verbatim>\<open>open\<close> raises FileNotFoundError.
\<close>

theorem loader_fallback_order:
  "(exists_path fs (p @ [''new'', ''estimates.json'']) \<longrightarrow>
      load_criterion_estimate_stream fs p = read_mean fs (p @ [''new'', ''estimates.json'']) \<and>
      load_criterion_estimate fs p = read_estimate fs (p @ [''new'', ''estimates.json''])) \<and>
   (\<not> exists_path fs (p @ [''new'', ''estimates.json'']) \<and>
    exists_path fs (p @ [''base'', ''estimates.json'']) \<longrightarrow>
      load_criterion_estimate_stream fs p = read_mean fs (p @ [''base'', ''estimates.json'']) \<and>
      load_criterion_estimate fs p = read_estimate fs (p @ [''base'', ''estimates.json''])) \<and>
   (\<not> exists_path fs (p @ [''new'', ''estimates.json'']) \<and>
    \<not> exists_path fs (p @ [''base'', ''estimates.json'']) \<longrightarrow>
      load_criterion_estimate_stream fs p = Inr None \<and>
      load_criterion_estimate fs p = Inl FileNotFoundError) \<and>
   (\<not> exists_path fs (base_dir @ [nm] @ [''new'', ''estimates.json'']) \<and>
    \<not> exists_path fs (base_dir @ [nm] @ [''base'', ''estimates.json'']) \<longrightarrow>
      load_cell fs base_dir nm = Inr (None, [Text (''Warning: Missing data for '' @ nm)])) \<and>
   (fs' (p @ [''new'', ''estimates.json'']) = fs (p @ [''new'', ''estimates.json'']) \<and>
    fs' (p @ [''base'', ''estimates.json'']) = fs (p @ [''base'', ''estimates.json'']) \<longrightarrow>
      load_criterion_estimate_stream fs' p = load_criterion_estimate_stream fs p \<and>
      load_criterion_estimate fs' p = load_criterion_estimate fs p)"
proof (intro conjI impI)
  assume n: "exists_path fs (p @ [''new'', ''estimates.json''])"
  show "load_criterion_estimate_stream fs p = read_mean fs (p @ [''new'', ''estimates.json''])"
    using n by (simp add: load_criterion_estimate_stream_def estimates_path_new)
  show "load_criterion_estimate fs p = read_estimate fs (p @ [''new'', ''estimates.json''])"
    using n by (simp add: load_criterion_estimate_def estimates_path_new)
next
  assume b: "\<not> exists_path fs (p @ [''new'', ''estimates.json'']) \<and>
    exists_path fs (p @ [''base'', ''estimates.json''])"
  show "load_criterion_estimate_stream fs p = read_mean fs (p @ [''base'', ''estimates.json''])"
    using b by (simp add: load_criterion_estimate_stream_def estimates_path_base)
  show "load_criterion_estimate fs p = read_estimate fs (p @ [''base'', ''estimates.json''])"
    using b by (simp add: load_criterion_estimate_def estimates_path_base)
next
  assume a: "\<not> exists_path fs (p @ [''new'', ''estimates.json'']) \<and>
    \<not> exists_path fs (p @ [''base'', ''estimates.json''])"
  show "load_criterion_estimate_stream fs p = Inr None"
    using a by (simp add: load_stream_absent)
  show "load_criterion_estimate fs p = Inl FileNotFoundError"
    using a by (simp add: load_criterion_estimate_def estimates_path_base read_estimate_absent)
next
  assume a: "\<not> exists_path fs (base_dir @ [nm] @ [''new'', ''estimates.json'']) \<and>
    \<not> exists_path fs (base_dir @ [nm] @ [''base'', ''estimates.json''])"
  have "load_criterion_estimate_stream fs (base_dir @ [nm]) = Inr None"
    using a by (intro load_stream_absent) simp_all
  then show "load_cell fs base_dir nm = Inr (None, [Text (''Warning: Missing data for '' @ nm)])"
    by (rule load_cell_absent)
next
  assume e: "fs' (p @ [''new'', ''estimates.json'']) = fs (p @ [''new'', ''estimates.json'']) \<and>
    fs' (p @ [''base'', ''estimates.json'']) = fs (p @ [''base'', ''estimates.json''])"
  from e have e1: "fs' (p @ [''new'', ''estimates.json'']) = fs (p @ [''new'', ''estimates.json''])"
    by (rule conjunct1)
  from e have e2: "fs' (p @ [''base'', ''estimates.json'']) = fs (p @ [''base'', ''estimates.json''])"
    by (rule conjunct2)
  have ep: "estimates_path fs' p = estimates_path fs p"
    by (rule estimates_path_cong[of fs' p fs, OF e1])
  have at: "fs' (estimates_path fs p) = fs (estimates_path fs p)"
  proof (cases "exists_path fs (p @ [''new'', ''estimates.json''])")
    case True
    show ?thesis unfolding estimates_path_new[OF True] by (rule e1)
  next
    case False
    show ?thesis unfolding estimates_path_base[OF False] by (rule e2)
  qed
  have ex: "exists_path fs' (estimates_path fs p) = exists_path fs (estimates_path fs p)"
    by (simp only: exists_path_def at)
  show "load_criterion_estimate_stream fs' p = load_criterion_estimate_stream fs p"
    by (simp only: load_criterion_estimate_stream_def ep ex read_mean_cong[of fs' "estimates_path fs p" fs, OF at])
  show "load_criterion_estimate fs' p = load_criterion_estimate fs p"
    by (simp only: load_criterion_estimate_def ep read_estimate_cong[of fs' "estimates_path fs p" fs, OF at])
qed

text \<open>
  A cell with only the "base" variant present: both loaders return that variant's data.
\<close>

theorem loader_fallback_order_witness:
  "\<not> exists_path (map_of [([''cell'', ''base'', ''estimates.json''], File (Parsed (full_record 10 8 12)))])
       ([''cell''] @ [''new'', ''estimates.json'']) \<and>
   exists_path (map_of [([''cell'', ''base'', ''estimates.json''], File (Parsed (full_record 10 8 12)))])
       ([''cell''] @ [''base'', ''estimates.json'']) \<and>
   load_criterion_estimate_stream
       (map_of [([''cell'', ''base'', ''estimates.json''], File (Parsed (full_record 10 8 12)))])
       [''cell''] = Inr (Some [(''mean'', JNum 10)]) \<and>
   load_criterion_estimate
       (map_of [([''cell'', ''base'', ''estimates.json''], File (Parsed (full_record 10 8 12)))])
       [''cell''] =
     Inr \<lparr>mean = 10, ci_lower = 8, ci_upper = 12, error_lower = 2, error_upper = 2\<rparr>"
proof -
  let ?fs = "map_of [([''cell'', ''base'', ''estimates.json''], File (Parsed (full_record 10 8 12)))]"
  have n: "\<not> exists_path ?fs ([''cell''] @ [''new'', ''estimates.json''])"
    by (simp add: exists_path_def)
  have b: "exists_path ?fs ([''cell''] @ [''base'', ''estimates.json''])"
    by (simp add: exists_path_def)
  have t: "load_criterion_estimate_stream ?fs [''cell''] =
             read_mean ?fs ([''cell''] @ [''base'', ''estimates.json'']) \<and>
           load_criterion_estimate ?fs [''cell''] =
             read_estimate ?fs ([''cell''] @ [''base'', ''estimates.json''])"
    using loader_fallback_order[where fs = ?fs and p = "[''cell'']"] n b by blast
  have rm: "read_mean ?fs ([''cell''] @ [''base'', ''estimates.json'']) = Inr (Some [(''mean'', JNum 10)])"
    by (simp add: read_mean_def open_read_def json_load_def full_record_def)
  have re: "read_estimate ?fs ([''cell''] @ [''base'', ''estimates.json'']) =
     Inr \<lparr>mean = 10, ci_lower = 8, ci_upper = 12, error_lower = 2, error_upper = 2\<rparr>"
    by (simp add: read_estimate_def open_read_def json_load_def full_record_def)
  show ?thesis using n b t rm re by simp
qed

text \<open>
  C3 as stated fails for the loader of the fverify analyses: with neither variant
  present it raises FileNotFoundError instead of returning an absent marker, and the
  fverify-1024 run on a store where nothing was benchmarked (so that the baseline
  "verify 1024" is missing) ends with that error.
\<close>

theorem fverify_loader_raises_when_never_benchmarked:
  "load_criterion_estimate (\<lambda>p. None) [''cell''] = Inl FileNotFoundError \<and>
   main_1024 (\<lambda>p. None) = Inl FileNotFoundError"
  by (simp add: main_1024_def index_counts_1024_def exists_path_def
      load_criterion_estimate_def read_estimate_def open_read_def)

subsection \<open>Malformed records\<close>

lemma read_estimate_Inr_fields:
  assumes f: "fs ep = Some (File c)" and r: "read_estimate fs ep = Inr e"
  shows "has_number c point_estimate_field \<and> has_number c lower_bound_field \<and>
         has_number c upper_bound_field"
proof -
  from f r obtain data where c: "c = Parsed data"
    by (cases c) (simp_all add: read_estimate_def open_read_def json_load_def)
  from f r c obtain m pe ci lo hi where
    m: "getitem data ''mean'' = Inr m" and
    pe: "getitem m ''point_estimate'' = Inr pe" and
    ci: "getitem m ''confidence_interval'' = Inr ci" and
    lo: "getitem ci ''lower_bound'' = Inr lo" and
    hi: "getitem ci ''upper_bound'' = Inr hi" and
    nums: "(case (as_number pe, as_number lo, as_number hi) of
             (Some mu, Some l, Some h) \<Rightarrow>
               Inr \<lparr>mean = mu, ci_lower = l, ci_upper = h,
                    error_lower = mu - l, error_upper = h - mu\<rparr>
           | _ \<Rightarrow> Inl TypeError) = Inr e"
    by (auto simp: read_estimate_def open_read_def json_load_def bindE_Inr_iff)
  from nums have n: "as_number pe \<noteq> None" "as_number lo \<noteq> None" "as_number hi \<noteq> None"
    by (auto split: option.splits)
  have a1: "json_at data point_estimate_field = Some pe"
    using m pe by (simp add: point_estimate_field_def getitem_json_at)
  have a2: "json_at data lower_bound_field = Some lo"
    using m ci lo by (simp add: lower_bound_field_def getitem_json_at)
  have a3: "json_at data upper_bound_field = Some hi"
    using m ci hi by (simp add: upper_bound_field_def getitem_json_at)
  show ?thesis using c a1 a2 a3 n by (simp add: has_number_def)
qed

lemma read_mean_Inr:
  assumes f: "fs ep = Some (File c)" and r: "read_mean fs ep = Inr d"
  shows "\<exists>data v. c = Parsed data \<and> json_at data point_estimate_field = Some v \<and>
           d = Some [(''mean'', v)]"
proof -
  from f r obtain data where c: "c = Parsed data"
    by (cases c) (simp_all add: read_mean_def open_read_def json_load_def)
  from f r c obtain m pe where
    m: "getitem data ''mean'' = Inr m" and
    pe: "getitem m ''point_estimate'' = Inr pe" and
    d: "d = Some [(''mean'', pe)]"
    by (auto simp: read_mean_def open_read_def json_load_def bindE_Inr_iff)
  have "json_at data point_estimate_field = Some pe"
    using m pe by (simp add: point_estimate_field_def getitem_json_at)
  with c d show ?thesis by blast
qed

lemma load_stream_file:
  "fs (estimates_path fs p) = Some (File c) \<Longrightarrow>
   load_criterion_estimate_stream fs p = read_mean fs (estimates_path fs p)"
  by (simp add: load_criterion_estimate_stream_def exists_path_def)

lemma load_cell_Inr_number:
  assumes f: "fs (estimates_path fs (base_dir @ [nm])) = Some (File c)"
    and r: "load_cell fs base_dir nm = Inr x"
  shows "has_number c point_estimate_field"
proof -
  from r obtain d where
    l: "load_criterion_estimate_stream fs (base_dir @ [nm]) = Inr d" and
    rest: "(if truthy d then
              bindE (getitem_dict d ''mean'') (\<lambda>mean_v.
              bindE (py_truediv mean_v 1000000) (\<lambda>ms. Inr (Some ms, [])))
            else Inr (None, [Text (''Warning: Missing data for '' @ nm)])) = Inr x"
    by (auto simp: load_cell_def bindE_Inr_iff)
  from l have "read_mean fs (estimates_path fs (base_dir @ [nm])) = Inr d"
    by (simp add: load_stream_file[of fs "base_dir @ [nm]" c, OF f])
  from read_mean_Inr[of fs "estimates_path fs (base_dir @ [nm])" c d, OF f this] obtain data v where
    c: "c = Parsed data" and v: "json_at data point_estimate_field = Some v" and
    d: "d = Some [(''mean'', v)]" by blast
  from rest d have "\<exists>ms. py_truediv v 1000000 = Inr ms"
    by (auto simp: truthy_def getitem_dict_def bindE_Inr_iff)
  then have "as_number v \<noteq> None"
    by (auto simp: py_truediv_def split: option.splits)
  with c v show ?thesis by (simp add: has_number_def)
qed

lemma load_series_Inl:
  "fr \<in> set frs \<Longrightarrow> load_cell fs bd (name fr) = Inl e \<Longrightarrow>
   \<exists>e'. load_series fs bd name frs (series, out) = Inl e'"
proof (induction frs arbitrary: series out)
  case Nil
  then show ?case by simp
next
  case (Cons x xs)
  show ?case
  proof (cases "load_cell fs bd (name x)")
    case (Inl e0)
    then show ?thesis by simp
  next
    case (Inr r)
    obtain v printed where r: "r = (v, printed)" by (cases r)
    from Inr Cons.prems have "fr \<in> set xs" by auto
    from Cons.IH[OF this Cons.prems(2)] Inr r show ?thesis by simp
  qed
qed

lemma load_optimized_Inl:
  "idx \<in> set idxs \<Longrightarrow>
   (\<And>out. \<exists>e. load_series fs bd (optimized_name variant idx) invalid_fractions ([], out) = Inl e) \<Longrightarrow>
   \<exists>e'. load_optimized fs bd variant idxs (opt, out) = Inl e'"
proof (induction idxs arbitrary: opt out)
  case Nil
  then show ?case by simp
next
  case (Cons x xs)
  show ?case
  proof (cases "load_series fs bd (optimized_name variant x) invalid_fractions ([], out)")
    case (Inl e0)
    then show ?thesis by simp
  next
    case (Inr r)
    obtain series out' where r: "r = (series, out')" by (cases r)
    from Inr Cons.prems(2)[of out] have "x \<noteq> idx" by auto
    with Cons.prems(1) have "idx \<in> set xs" by simp
    from Cons.IH[OF this Cons.prems(2)] Inr r show ?thesis by simp
  qed
qed

lemma load_results_Inl:
  "variant \<in> set vs \<Longrightarrow>
   (\<And>out. (\<exists>e. load_series fs bd (baseline_name variant) invalid_fractions ([], out) = Inl e) \<or>
            (\<forall>out1. \<exists>e. load_optimized fs bd variant index_counts ([], out1) = Inl e)) \<Longrightarrow>
   \<exists>e'. load_results fs bd vs (results, out) = Inl e'"
proof (induction vs arbitrary: results out)
  case Nil
  then show ?case by simp
next
  case (Cons x xs)
  show ?case
  proof (cases "x = variant")
    case True
    from Cons.prems(2)[of out] show ?thesis
    proof
      assume "\<exists>e. load_series fs bd (baseline_name variant) invalid_fractions ([], out) = Inl e"
      then show ?thesis using True by auto
    next
      assume a: "\<forall>out1. \<exists>e. load_optimized fs bd variant index_counts ([], out1) = Inl e"
      show ?thesis
      proof (cases "load_series fs bd (baseline_name variant) invalid_fractions ([], out)")
        case (Inl e0)
        then show ?thesis using True by simp
      next
        case (Inr r)
        obtain b out1 where r: "r = (b, out1)" by (cases r)
        from a obtain e where "load_optimized fs bd variant index_counts ([], out1) = Inl e"
          by blast
        with Inr r True show ?thesis by simp
      qed
    qed
  next
    case False
    with Cons.prems(1) have v: "variant \<in> set xs" by simp
    show ?thesis
    proof (cases "load_series fs bd (baseline_name x) invalid_fractions ([], out)")
      case (Inl e0)
      then show ?thesis by simp
    next
      case (Inr r)
      obtain b out1 where r: "r = (b, out1)" by (cases r)
      show ?thesis
      proof (cases "load_optimized fs bd x index_counts ([], out1)")
        case (Inl e1)
        with Inr r show ?thesis by simp
      next
        case Inr2: (Inr r2)
        obtain opt out2 where r2: "r2 = (opt, out2)" by (cases r2)
        from Cons.IH[OF v Cons.prems(2)] Inr r Inr2 r2 show ?thesis by simp
      qed
    qed
  qed
qed

lemma main_stream_Inl:
  assumes "variant \<in> set variants"
    and "\<And>out. (\<exists>e. load_series fs stream_base_dir (baseline_name variant) invalid_fractions ([], out) = Inl e) \<or>
            (\<forall>out1. \<exists>e. load_optimized fs stream_base_dir variant index_counts ([], out1) = Inl e)"
  shows "\<exists>e. main_stream fs = Inl e"
proof (cases "exists_path fs stream_base_dir")
  case False
  then show ?thesis by (simp add: main_stream_def)
next
  case True
  from load_results_Inl[of variant variants fs stream_base_dir "[]"
      "[Text ''Starting benchmark plot generation...'']", OF assms]
  obtain e where "load_results fs stream_base_dir variants
      ([], [Text ''Starting benchmark plot generation...'']) = Inl e" by blast
  with True show ?thesis by (simp add: main_stream_def)
qed

lemma load_fverify_data_Inl:
  "n \<in> set ns \<Longrightarrow> exists_path fs (fverify_path bits n) \<Longrightarrow>
   load_criterion_estimate fs (fverify_path bits n) = Inl e \<Longrightarrow>
   \<exists>e'. load_fverify_data fs bits ns (fverify_data, out) = Inl e'"
proof (induction ns arbitrary: fverify_data out)
  case Nil
  then show ?case by simp
next
  case (Cons x xs)
  show ?case
  proof (cases "x = n")
    case True
    with Cons.prems show ?thesis by simp
  next
    case False
    with Cons.prems(1) have n: "n \<in> set xs" by simp
    show ?thesis
    proof (cases "exists_path fs (fverify_path bits x)")
      case False
      with Cons.IH[OF n Cons.prems(2,3)] show ?thesis by simp
    next
      case True
      show ?thesis
      proof (cases "load_criterion_estimate fs (fverify_path bits x)")
        case (Inl e0)
        with True show ?thesis by simp
      next
        case (Inr est)
        with True Cons.IH[OF n Cons.prems(2,3)] show ?thesis by simp
      qed
    qed
  qed
qed

lemma load_estimate_malformed:
  assumes f: "fs (estimates_path fs p) = Some (File c)"
    and bad: "\<not> (has_number c point_estimate_field \<and> has_number c lower_bound_field \<and>
                has_number c upper_bound_field)"
  shows "\<exists>e. load_criterion_estimate fs p = Inl e"
proof (cases "load_criterion_estimate fs p")
  case (Inl e)
  then show ?thesis by blast
next
  case (Inr est)
  then have "read_estimate fs (estimates_path fs p) = Inr est"
    by (simp add: load_criterion_estimate_def)
  from read_estimate_Inr_fields[of fs "estimates_path fs p" c est, OF f this] bad
  show ?thesis by blast
qed

lemma load_stream_malformed:
  assumes f: "fs (estimates_path fs p) = Some (File c)"
    and bad: "\<not> has_field c point_estimate_field"
  shows "\<exists>e. load_criterion_estimate_stream fs p = Inl e"
proof (cases "load_criterion_estimate_stream fs p")
  case (Inl e)
  then show ?thesis by blast
next
  case (Inr d)
  then have "read_mean fs (estimates_path fs p) = Inr d"
    by (simp add: load_stream_file[of fs p c, OF f])
  from read_mean_Inr[of fs "estimates_path fs p" c d, OF f this] bad
  show ?thesis by (auto simp: has_field_def)
qed

lemma load_cell_malformed:
  assumes f: "fs (estimates_path fs (base_dir @ [nm])) = Some (File c)"
    and bad: "\<not> has_number c point_estimate_field"
  shows "\<exists>e. load_cell fs base_dir nm = Inl e"
proof (cases "load_cell fs base_dir nm")
  case (Inl e)
  then show ?thesis by blast
next
  case (Inr x)
  from load_cell_Inr_number[of fs base_dir nm c x, OF f Inr] bad show ?thesis by blast
qed

lemma unparsable_JSONDecodeError:
  assumes f: "fs (estimates_path fs p) = Some (File Unparsable)"
  shows "load_criterion_estimate fs p = Inl JSONDecodeError"
    and "load_criterion_estimate_stream fs p = Inl JSONDecodeError"
  using f
  by (simp_all add: load_criterion_estimate_def load_criterion_estimate_stream_def
      read_estimate_def read_mean_def open_read_def json_load_def exists_path_def)

lemma main_1024_series_malformed:
  assumes n: "n \<in> set index_counts_1024"
    and ex: "exists_path fs (fverify_path ''1024'' n)"
    and l: "load_criterion_estimate fs (fverify_path ''1024'' n) = Inl e"
  shows "\<exists>e'. main_1024 fs = Inl e'"
proof -
  from load_fverify_data_Inl[of n index_counts_1024 fs "''1024''" e "[]" "[]", OF n ex l]
  obtain e' where "load_fverify_data fs ''1024'' index_counts_1024 ([], []) = Inl e'" by blast
  then show ?thesis by (simp add: main_1024_def)
qed

lemma main_1024_baseline_malformed:
  assumes "load_criterion_estimate fs (criterion_dir @ [''falcon-rust'', ''verify 1024'']) = Inl e \<or>
           load_criterion_estimate fs (criterion_dir @ [''c ffi'', ''verify 1024'']) = Inl e"
  shows "\<exists>e'. main_1024 fs = Inl e'"
proof (cases "load_fverify_data fs ''1024'' index_counts_1024 ([], [])")
  case (Inl e0)
  then show ?thesis by (simp add: main_1024_def)
next
  case (Inr r)
  obtain d out where r: "r = (d, out)" by (cases r)
  show ?thesis
  proof (cases "load_criterion_estimate fs (criterion_dir @ [''falcon-rust'', ''verify 1024''])")
    case (Inl e1)
    with Inr r show ?thesis by (simp add: main_1024_def)
  next
    case Inr1: (Inr v)
    with assms have "load_criterion_estimate fs (criterion_dir @ [''c ffi'', ''verify 1024'']) = Inl e"
      by auto
    with Inr r Inr1 show ?thesis by (simp add: main_1024_def)
  qed
qed

lemma main_stream_baseline_malformed:
  assumes v: "variant \<in> set variants" and fr: "fr \<in> set invalid_fractions"
    and f: "fs (estimates_path fs (stream_base_dir @ [baseline_name variant fr])) = Some (File c)"
    and bad: "\<not> has_number c point_estimate_field"
  shows "\<exists>e. main_stream fs = Inl e"
proof -
  from load_cell_malformed[of fs stream_base_dir "baseline_name variant fr" c, OF f bad]
  obtain e where e: "load_cell fs stream_base_dir (baseline_name variant fr) = Inl e" by blast
  have "\<And>out. \<exists>e'. load_series fs stream_base_dir (baseline_name variant) invalid_fractions
          ([], out) = Inl e'"
    by (rule load_series_Inl[of fr invalid_fractions fs stream_base_dir "baseline_name variant" e, OF fr e])
  then show ?thesis by (intro main_stream_Inl[OF v]) blast
qed

lemma main_stream_optimized_malformed:
  assumes v: "variant \<in> set variants" and i: "idx \<in> set index_counts"
    and fr: "fr \<in> set invalid_fractions"
    and f: "fs (estimates_path fs (stream_base_dir @ [optimized_name variant idx fr])) = Some (File c)"
    and bad: "\<not> has_number c point_estimate_field"
  shows "\<exists>e. main_stream fs = Inl e"
proof -
  from load_cell_malformed[of fs stream_base_dir "optimized_name variant idx fr" c, OF f bad]
  obtain e where e: "load_cell fs stream_base_dir (optimized_name variant idx fr) = Inl e" by blast
  have s: "\<And>out. \<exists>e'. load_series fs stream_base_dir (optimized_name variant idx) invalid_fractions
          ([], out) = Inl e'"
    by (rule load_series_Inl[of fr invalid_fractions fs stream_base_dir "optimized_name variant idx" e, OF fr e])
  have "\<And>out1. \<exists>e'. load_optimized fs stream_base_dir variant index_counts ([], out1) = Inl e'"
    by (rule load_optimized_Inl[of idx index_counts fs stream_base_dir variant, OF i s])
  then show ?thesis by (intro main_stream_Inl[OF v]) blast
qed

text \<open>
  C6 (amended). For every storage location whose record file exists but fails to parse,
  or lacks a field that the loader reads, the loader raises an error (JSONDecodeError,
  KeyError or TypeError), which ends the whole run: the record is never taken as absent
  and the run does not go past it. The loader of the fverify analyses reads the mean
  point estimate and both confidence bounds and needs all three to be numbers; the
  loader of the stream-verification analysis reads the mean point estimate only, and
  that run also ends when the point estimate is not a number.
\<close>

theorem malformed_record_aborts:
  assumes f: "fs (estimates_path fs p) = Some (File c)"
  shows
   "(c = Unparsable \<longrightarrow>
       load_criterion_estimate fs p = Inl JSONDecodeError \<and>
       load_criterion_estimate_stream fs p = Inl JSONDecodeError) \<and>
    (\<not> (has_number c point_estimate_field \<and> has_number c lower_bound_field \<and>
         has_number c upper_bound_field) \<longrightarrow>
       (\<exists>e. load_criterion_estimate fs p = Inl e) \<and>
       (p = criterion_dir @ [''falcon-rust'', ''verify 1024''] \<or>
        p = criterion_dir @ [''c ffi'', ''verify 1024''] \<or>
        n \<in> set index_counts_1024 \<and> p = fverify_path ''1024'' n \<and> exists_path fs p \<longrightarrow>
          (\<exists>e. main_1024 fs = Inl e))) \<and>
    (\<not> has_field c point_estimate_field \<longrightarrow>
       (\<exists>e. load_criterion_estimate_stream fs p = Inl e)) \<and>
    (\<not> has_number c point_estimate_field \<and> variant \<in> set variants \<and>
     fr \<in> set invalid_fractions \<and>
     (p = stream_base_dir @ [baseline_name variant fr] \<or>
      idx \<in> set index_counts \<and> p = stream_base_dir @ [optimized_name variant idx fr]) \<longrightarrow>
       (\<exists>e. main_stream fs = Inl e))"
proof (intro conjI impI)
  assume "c = Unparsable"
  with f have u: "fs (estimates_path fs p) = Some (File Unparsable)" by simp
  show "load_criterion_estimate fs p = Inl JSONDecodeError"
    by (rule unparsable_JSONDecodeError(1)[of fs p, OF u])
  show "load_criterion_estimate_stream fs p = Inl JSONDecodeError"
    by (rule unparsable_JSONDecodeError(2)[of fs p, OF u])
next
  assume bad: "\<not> (has_number c point_estimate_field \<and> has_number c lower_bound_field \<and>
         has_number c upper_bound_field)"
  show l: "\<exists>e. load_criterion_estimate fs p = Inl e"
    by (rule load_estimate_malformed[of fs p c, OF f bad])
  assume wh: "p = criterion_dir @ [''falcon-rust'', ''verify 1024''] \<or>
        p = criterion_dir @ [''c ffi'', ''verify 1024''] \<or>
        n \<in> set index_counts_1024 \<and> p = fverify_path ''1024'' n \<and> exists_path fs p"
  from l obtain e where e: "load_criterion_estimate fs p = Inl e" by blast
  from wh show "\<exists>e. main_1024 fs = Inl e"
  proof (elim disjE conjE)
    assume "p = criterion_dir @ [''falcon-rust'', ''verify 1024'']"
    with e show ?thesis by (intro main_1024_baseline_malformed[of fs e]) simp
  next
    assume "p = criterion_dir @ [''c ffi'', ''verify 1024'']"
    with e show ?thesis by (intro main_1024_baseline_malformed[of fs e]) simp
  next
    assume "n \<in> set index_counts_1024" "p = fverify_path ''1024'' n" "exists_path fs p"
    with e show ?thesis by (intro main_1024_series_malformed[of n fs e]) simp_all
  qed
next
  assume bad: "\<not> has_field c point_estimate_field"
  show "\<exists>e. load_criterion_estimate_stream fs p = Inl e"
    by (rule load_stream_malformed[of fs p c, OF f bad])
next
  assume a: "\<not> has_number c point_estimate_field \<and> variant \<in> set variants \<and>
     fr \<in> set invalid_fractions \<and>
     (p = stream_base_dir @ [baseline_name variant fr] \<or>
      idx \<in> set index_counts \<and> p = stream_base_dir @ [optimized_name variant idx fr])"
  then have bad: "\<not> has_number c point_estimate_field" and v: "variant \<in> set variants"
    and fr: "fr \<in> set invalid_fractions" by blast+
  from a have "p = stream_base_dir @ [baseline_name variant fr] \<or>
      idx \<in> set index_counts \<and> p = stream_base_dir @ [optimized_name variant idx fr]" by blast
  then show "\<exists>e. main_stream fs = Inl e"
  proof (elim disjE conjE)
    assume p: "p = stream_base_dir @ [baseline_name variant fr]"
    from f p have f': "fs (estimates_path fs (stream_base_dir @ [baseline_name variant fr])) = Some (File c)"
      by simp
    show ?thesis
      by (rule main_stream_baseline_malformed[of variant fr fs c, OF v fr f' bad])
  next
    assume i: "idx \<in> set index_counts" and p: "p = stream_base_dir @ [optimized_name variant idx fr]"
    from f p have f': "fs (estimates_path fs (stream_base_dir @ [optimized_name variant idx fr])) = Some (File c)"
      by simp
    show ?thesis
      by (rule main_stream_optimized_malformed[of variant idx fr fs c, OF v i fr f' bad])
  qed
qed

text \<open>
  A record with the mean but no confidence interval: the loader of the fverify analyses
  raises KeyError.
\<close>

theorem malformed_record_aborts_witness:
  "map_of [([''cell'', ''new'', ''estimates.json''], File (Parsed (mean_only_record 10)))]
     (estimates_path
        (map_of [([''cell'', ''new'', ''estimates.json''], File (Parsed (mean_only_record 10)))])
        [''cell'']) = Some (File (Parsed (mean_only_record 10))) \<and>
   \<not> has_number (Parsed (mean_only_record 10)) lower_bound_field \<and>
   (\<exists>e. load_criterion_estimate
          (map_of [([''cell'', ''new'', ''estimates.json''], File (Parsed (mean_only_record 10)))])
          [''cell''] = Inl e) \<and>
   load_criterion_estimate
     (map_of [([''cell'', ''new'', ''estimates.json''], File (Parsed (mean_only_record 10)))])
     [''cell''] = Inl (KeyError ''confidence_interval'')"
proof -
  let ?fs = "map_of [([''cell'', ''new'', ''estimates.json''], File (Parsed (mean_only_record 10)))]"
  have f: "?fs (estimates_path ?fs [''cell'']) = Some (File (Parsed (mean_only_record 10)))"
    by (simp add: estimates_path_def exists_path_def)
  have bad: "\<not> has_number (Parsed (mean_only_record 10)) lower_bound_field"
    by (simp add: has_number_def lower_bound_field_def mean_only_record_def)
  have ex: "\<exists>e. load_criterion_estimate ?fs [''cell''] = Inl e"
    using malformed_record_aborts[of ?fs "[''cell'']" "Parsed (mean_only_record 10)", OF f] bad by blast
  have v: "load_criterion_estimate ?fs [''cell''] = Inl (KeyError ''confidence_interval'')"
    by (simp add: load_criterion_estimate_def estimates_path_def exists_path_def
        read_estimate_def open_read_def json_load_def mean_only_record_def)
  show ?thesis using f bad ex v by blast
qed

text \<open>
  C6 as stated fails for the loader of the stream-verification analysis: a record that
  lacks both confidence bounds is loaded without an error, and the series loop goes on
  with its value.
\<close>

theorem stream_loader_accepts_record_without_bounds:
  "\<not> has_number (Parsed (mean_only_record 10)) lower_bound_field \<and>
   \<not> has_number (Parsed (mean_only_record 10)) upper_bound_field \<and>
   load_criterion_estimate_stream
     (map_of [([''cell'', ''new'', ''estimates.json''], File (Parsed (mean_only_record 10)))])
     [''cell''] = Inr (Some [(''mean'', JNum 10)]) \<and>
   load_cell
     (map_of [([''cell'', ''new'', ''estimates.json''], File (Parsed (mean_only_record 10)))])
     [] ''cell'' = Inr (Some (10 / 1000000), [])"
  by (simp add: has_number_def lower_bound_field_def upper_bound_field_def mean_only_record_def
      load_cell_def load_criterion_estimate_stream_def estimates_path_def exists_path_def
      read_mean_def open_read_def json_load_def truthy_def getitem_dict_def py_truediv_def)

text \<open>
  C10. In the stream-verification analysis the loader takes only the mean point estimate
  from an existing record: for every record that parses and contains
  \<^verbatim>\<open>mean.point_estimate\<close> the load succeeds, the returned estimate has the single key
  \<^verbatim>\<open>mean\<close> and no confidence-interval data, and when the record has no
  \<^verbatim>\<open>confidence_interval\<close> the loader of the fverify analyses rejects the same record
  with that error.
\<close>

theorem stream_loader_reads_mean_only:
  assumes f: "fs (estimates_path fs p) = Some (File (Parsed data))"
    and m: "getitem data ''mean'' = Inr m"
    and v: "getitem m ''point_estimate'' = Inr v"
  shows "load_criterion_estimate_stream fs p = Inr (Some [(''mean'', v)]) \<and>
         map_of [(''mean'', v)] ''ci_lower'' = None \<and>
         map_of [(''mean'', v)] ''ci_upper'' = None \<and>
         (\<forall>e. getitem m ''confidence_interval'' = Inl e \<longrightarrow>
              load_criterion_estimate fs p = Inl e)"
  using f m v
  by (simp add: load_criterion_estimate_stream_def read_mean_def open_read_def json_load_def
      exists_path_def load_criterion_estimate_def read_estimate_def)

text \<open>The record with the mean alone, under both loaders.\<close>

theorem stream_loader_reads_mean_only_witness:
  "load_criterion_estimate_stream
     (map_of [([''cell'', ''new'', ''estimates.json''], File (Parsed (mean_only_record 10)))])
     [''cell''] = Inr (Some [(''mean'', JNum 10)]) \<and>
   load_criterion_estimate
     (map_of [([''cell'', ''new'', ''estimates.json''], File (Parsed (mean_only_record 10)))])
     [''cell''] = Inl (KeyError ''confidence_interval'')"
proof -
  let ?fs = "map_of [([''cell'', ''new'', ''estimates.json''], File (Parsed (mean_only_record 10)))]"
  have f: "?fs (estimates_path ?fs [''cell'']) = Some (File (Parsed (mean_only_record 10)))"
    by (simp add: estimates_path_def exists_path_def)
  have m: "getitem (mean_only_record 10) ''mean'' = Inr (JObj [(''point_estimate'', JNum 10)])"
    by (simp add: mean_only_record_def)
  have v: "getitem (JObj [(''point_estimate'', JNum 10)]) ''point_estimate'' = Inr (JNum 10)"
    by simp
  have c: "getitem (JObj [(''point_estimate'', JNum 10)]) ''confidence_interval'' =
             Inl (KeyError ''confidence_interval'')"
    by simp
  note t = stream_loader_reads_mean_only[of ?fs "[''cell'']" "mean_only_record 10" "JObj [(''point_estimate'', JNum 10)]"
      "JNum 10", OF f m v]
  from t c show ?thesis by blast
qed

subsection \<open>The median over a group with missing members\<close>

lemma finite_values_nan_if_none: "finite_values (nan_if_none xs) = present xs"
proof (induction xs)
  case Nil
  then show ?case by (simp add: nan_if_none_def)
next
  case (Cons x xs)
  then show ?case by (cases x) (simp_all add: nan_if_none_def)
qed

lemma no_inf_nan_if_none:
  "filter (\<lambda>x. x = NInf) (nan_if_none xs) = []"
  "filter (\<lambda>x. x = PInf) (nan_if_none xs) = []"
  by (induction xs) (auto simp: nan_if_none_def split: option.splits)

lemma np_sort_nan_if_none: "np_sort (nan_if_none xs) = map Fin (sort (present xs))"
  by (simp add: np_sort_def finite_values_nan_if_none no_inf_nan_if_none)

lemma present_all_None: "(\<forall>x \<in> set xs. x = None) \<Longrightarrow> present xs = []"
  by (induction xs) auto

lemma nanmedian_all_missing: "present xs = [] \<Longrightarrow> nanmedian (nan_if_none xs) = NaN"
  by (simp add: nanmedian_def Let_def np_sort_nan_if_none)

lemma nanmedian_present:
  assumes ne: "present xs \<noteq> []"
  shows "nanmedian (nan_if_none xs) = Fin (median (present xs))"
proof -
  let ?s = "sort (present xs)"
  let ?n = "length (present xs)"
  have n: "0 < ?n" using ne by simp
  have len: "length ?s = ?n" by simp
  have sne: "?s \<noteq> []" using len n by (metis length_greater_0_conv)
  show ?thesis
  proof (cases "odd ?n")
    case True
    then have k: "(?n - 1) div 2 = ?n div 2" by (elim oddE) simp
    have lt: "?n div 2 < ?n" using n by simp
    have "nanmedian (nan_if_none xs) = Fin (?s ! (?n div 2))"
      using True n lt sne by (simp add: nanmedian_def Let_def np_sort_nan_if_none)
    moreover have "median (present xs) = ?s ! (?n div 2)"
      using k by (simp add: median_def Let_def)
    ultimately show ?thesis by simp
  next
    case False
    then have ev: "even ?n" by simp
    with n have k: "(?n - 1) div 2 = ?n div 2 - 1" by (elim evenE) (cases "?n", auto)
    have lt: "?n div 2 < ?n" using n by simp
    have lt1: "?n div 2 - 1 < ?n" using n lt by linarith
    have "nanmedian (nan_if_none xs) =
            Fin ((?s ! (?n div 2 - 1) + ?s ! (?n div 2)) * (1 / 2))"
      using ev n lt lt1 sne by (simp add: nanmedian_def Let_def np_sort_nan_if_none)
    moreover have "median (present xs) = (?s ! (?n div 2 - 1) + ?s ! (?n div 2)) / 2"
      using k by (simp add: median_def Let_def)
    ultimately show ?thesis by simp
  qed
qed

lemma length_filter_sort: "length (filter P (sort vs)) = length (filter P vs)"
  by (simp add: filter_sort)

lemma filter_all: "(\<forall>x \<in> set ys. P x) \<Longrightarrow> filter P ys = ys"
  by (induction ys) auto

lemma length_filter_take_le: "length (filter P (take k s)) \<le> length (filter P s)"
proof -
  have "filter P s = filter P (take k s) @ filter P (drop k s)"
    by (metis append_take_drop_id filter_append)
  then show ?thesis by simp
qed

lemma length_filter_drop_le: "length (filter P (drop k s)) \<le> length (filter P s)"
proof -
  have "filter P s = filter P (take k s) @ filter P (drop k s)"
    by (metis append_take_drop_id filter_append)
  then show ?thesis by simp
qed

lemma median_is_median:
  assumes ne: "vs \<noteq> []"
  shows "is_median (median vs) vs"
proof -
  let ?s = "sort vs"
  let ?n = "length vs"
  let ?k1 = "(?n - 1) div 2"
  let ?k2 = "?n div 2"
  let ?m = "(?s ! ?k1 + ?s ! ?k2) / 2"
  have n: "0 < ?n" using ne by simp
  have len: "length ?s = ?n" by simp
  have srt: "sorted ?s" by simp
  have k12: "?k1 \<le> ?k2" by simp
  have k2: "?k2 < ?n" using n by simp
  have lohi: "?s ! ?k1 \<le> ?s ! ?k2"
    using srt k12 k2 by (simp add: sorted_nth_mono)
  have lo: "?s ! ?k1 \<le> ?m" using lohi by simp
  have hi: "?m \<le> ?s ! ?k2" using lohi by simp
  have m: "median vs = ?m" by (simp add: median_def Let_def)
  have below: "\<forall>x \<in> set (take (?k1 + 1) ?s). x \<le> ?m"
  proof
    fix x assume "x \<in> set (take (?k1 + 1) ?s)"
    then obtain i where i: "i < ?k1 + 1" "i < ?n" and x: "x = ?s ! i"
      by (auto simp: in_set_conv_nth)
    have "?s ! i \<le> ?s ! ?k1"
      using srt i k12 k2 by (intro sorted_nth_mono) simp_all
    with lo x show "x \<le> ?m" by simp
  qed
  have above: "\<forall>x \<in> set (drop ?k2 ?s). ?m \<le> x"
  proof
    fix x assume "x \<in> set (drop ?k2 ?s)"
    then obtain i where i: "i < ?n - ?k2" and x: "x = ?s ! (?k2 + i)"
      by (auto simp: in_set_conv_nth)
    have "?s ! ?k2 \<le> ?s ! (?k2 + i)"
      using srt i by (intro sorted_nth_mono) simp_all
    with hi x show "?m \<le> x" by simp
  qed
  have c1: "?k1 + 1 \<le> length (filter (\<lambda>v. v \<le> ?m) vs)"
  proof -
    have "length (filter (\<lambda>v. v \<le> ?m) (take (?k1 + 1) ?s)) = ?k1 + 1"
      using filter_all[OF below] k12 k2 by simp
    then have "?k1 + 1 \<le> length (filter (\<lambda>v. v \<le> ?m) ?s)"
      using length_filter_take_le[of "\<lambda>v. v \<le> ?m" "?k1 + 1" ?s] by simp
    then show ?thesis by (simp only: length_filter_sort)
  qed
  have c2: "?n - ?k2 \<le> length (filter (\<lambda>v. ?m \<le> v) vs)"
  proof -
    have "length (filter (\<lambda>v. ?m \<le> v) (drop ?k2 ?s)) = ?n - ?k2"
      using filter_all[OF above] by simp
    then have "?n - ?k2 \<le> length (filter (\<lambda>v. ?m \<le> v) ?s)"
      using length_filter_drop_le[of "\<lambda>v. ?m \<le> v" ?k2 ?s] by simp
    then show ?thesis by (simp only: length_filter_sort)
  qed
  have a1: "?n \<le> 2 * (?k1 + 1)" by presburger
  have a2: "?n \<le> 2 * (?n - ?k2)" by presburger
  show ?thesis
    unfolding is_median_def m using c1 c2 a1 a2 by linarith
qed

text \<open>
  C4 (amended). For every reduction group in which all members are missing, the
  reduction of the stream-verification analysis yields NaN, numpy's not-a-number: the
  missing members are turned into NaN on purpose and \<^verbatim>\<open>np.nanmedian\<close> of nothing but NaN
  is NaN. It is never a finite number such as zero.
\<close>

theorem all_missing_group_yields_nan:
  assumes "\<forall>x \<in> set (baseline r). x = None"
  shows "nanmedian (nan_if_none (baseline r)) = NaN \<and>
         fst (plot_variant r) = NaN \<and>
         (\<forall>q. fst (plot_variant r) \<noteq> Fin q)"
proof -
  have "present (baseline r) = []" by (rule present_all_None[OF assms])
  then have "nanmedian (nan_if_none (baseline r)) = NaN" by (rule nanmedian_all_missing)
  then show ?thesis by (simp add: plot_variant_def Let_def)
qed

text \<open>The five fractions of one variant, all missing.\<close>

theorem all_missing_group_yields_nan_witness:
  "nanmedian (nan_if_none [None, None, None, None, None]) = NaN \<and>
   fst (plot_variant \<lparr>baseline = [None, None, None, None, None],
                      optimized = [(1, [None, None, None, None, None])]\<rparr>) = NaN"
  using all_missing_group_yields_nan [of "\<lparr>baseline = [None, None, None, None, None],
                    optimized = [(1, [None, None, None, None, None])]\<rparr>"]
  by simp

text \<open>
  C4 as stated fails: for the group of two missing members the result of the reduction
  is the float NaN, which is recorded in \<^verbatim>\<open>baseline_medians\<close> and passed to
  \<^verbatim>\<open>ax.axhline\<close>; there is no separate absent value.
\<close>

theorem all_missing_group_not_absent:
  "nanmedian (nan_if_none [None, None]) = NaN \<and>
   plot_variant \<lparr>baseline = [None, None], optimized = []\<rparr> = (NaN, [AxHLine NaN])"
  by (simp add: plot_variant_def Let_def nanmedian_def np_sort_def nan_if_none_def)

text \<open>
  C7 (amended). For every reduction group with at least one non-missing member, the
  reduction of the stream-verification analysis returns the statistical median of the
  non-missing point estimates (missing entries are excluded, never counted as zero); for
  the group \<open>{Missing, 10, 12}\<close> this is \<open>11\<close>. It computes no uncertainty half-width: its
  whole result is this one number, at which the baseline line is drawn.
\<close>

theorem reduce_is_median_of_present:
  assumes "present (baseline r) \<noteq> []"
  shows "nanmedian (nan_if_none (baseline r)) = Fin (median (present (baseline r))) \<and>
         is_median (median (present (baseline r))) (present (baseline r)) \<and>
         plot_variant r =
           (Fin (median (present (baseline r))),
            AxHLine (Fin (median (present (baseline r)))) #
            map (\<lambda>(idx, series). PlotLine invalid_fractions (nan_if_none series)) (optimized r))"
proof -
  have m: "nanmedian (nan_if_none (baseline r)) = Fin (median (present (baseline r)))"
    by (rule nanmedian_present[OF assms])
  have i: "is_median (median (present (baseline r))) (present (baseline r))"
    by (rule median_is_median[OF assms])
  show ?thesis using m i by (simp add: plot_variant_def Let_def)
qed

text \<open>The group \<open>{Missing, 10, 12}\<close>.\<close>

theorem reduce_is_median_of_present_witness:
  "present [None, Some 10, Some (12::rat)] \<noteq> [] \<and>
   nanmedian (nan_if_none [None, Some 10, Some 12]) = Fin 11 \<and>
   is_median 11 [10, 12] \<and>
   plot_variant \<lparr>baseline = [None, Some 10, Some 12], optimized = []\<rparr> = (Fin 11, [AxHLine (Fin 11)])"
proof -
  have ne: "present (baseline \<lparr>baseline = [None, Some 10, Some 12], optimized = []\<rparr>) \<noteq> []"
    by simp
  have m: "median (present [None, Some 10, Some 12]) = 11"
    by (simp add: median_def Let_def)
  from reduce_is_median_of_present [OF ne] m show ?thesis by simp
qed

subsection \<open>Series construction\<close>

lemma read_mean_Some: "read_mean fs ep = Inr d \<Longrightarrow> \<exists>v. d = Some [(''mean'', v)]"
  by (auto simp: read_mean_def bindE_Inr_iff)

lemma load_stream_Some:
  "load_criterion_estimate_stream fs p = Inr d \<Longrightarrow> d = None \<or> (\<exists>v. d = Some [(''mean'', v)])"
  by (auto simp: load_criterion_estimate_stream_def dest: read_mean_Some split: if_splits)

lemma load_cell_cases:
  assumes "load_cell fs bd nm = Inr x"
  shows "(load_criterion_estimate_stream fs (bd @ [nm]) = Inr None \<and>
          x = (None, [Text (''Warning: Missing data for '' @ nm)])) \<or>
         (load_criterion_estimate_stream fs (bd @ [nm]) \<noteq> Inr None \<and> (\<exists>ms. x = (Some ms, [])))"
proof -
  from assms obtain d where
    l: "load_criterion_estimate_stream fs (bd @ [nm]) = Inr d" and
    rest: "(if truthy d then
              bindE (getitem_dict d ''mean'') (\<lambda>mean_v.
              bindE (py_truediv mean_v 1000000) (\<lambda>ms. Inr (Some ms, [])))
            else Inr (None, [Text (''Warning: Missing data for '' @ nm)])) = Inr x"
    by (auto simp: load_cell_def bindE_Inr_iff)
  from load_stream_Some[OF l] show ?thesis
  proof
    assume "d = None"
    with l rest show ?thesis by (simp add: truthy_def)
  next
    assume "\<exists>v. d = Some [(''mean'', v)]"
    then obtain v where d: "d = Some [(''mean'', v)]" by blast
    with rest have "\<exists>ms. x = (Some ms, [])"
      by (auto simp: truthy_def bindE_Inr_iff)
    with l d show ?thesis by simp
  qed
qed

lemma load_series_closed_form:
  assumes "\<forall>fr \<in> set frs. \<forall>e. load_cell fs bd (name fr) \<noteq> Inl e"
  shows "\<exists>vals. load_series fs bd name frs (series, out) =
            Inr (series @ vals,
                 out @ map (\<lambda>fr. Text (''Warning: Missing data for '' @ name fr))
                         (filter (\<lambda>fr. load_criterion_estimate_stream fs (bd @ [name fr]) = Inr None) frs)) \<and>
          length vals = length frs \<and>
          (\<forall>i < length frs. (vals ! i = None) =
             (load_criterion_estimate_stream fs (bd @ [name (frs ! i)]) = Inr None))"
  using assms
proof (induction frs arbitrary: series out)
  case Nil
  then show ?case by simp
next
  case (Cons x xs)
  let ?absent = "\<lambda>fr. load_criterion_estimate_stream fs (bd @ [name fr]) = Inr None"
  let ?warn = "\<lambda>fr. Text (''Warning: Missing data for '' @ name fr)"
  from Cons.prems obtain r where r: "load_cell fs bd (name x) = Inr r"
    by (cases "load_cell fs bd (name x)") auto
  obtain v printed where vp: "r = (v, printed)" by (cases r)
  from load_cell_cases[OF r] vp have c:
    "(?absent x \<and> v = None \<and> printed = [?warn x]) \<or> (\<not> ?absent x \<and> (\<exists>ms. v = Some ms) \<and> printed = [])"
    by auto
  from Cons.prems have rest: "\<forall>fr \<in> set xs. \<forall>e. load_cell fs bd (name fr) \<noteq> Inl e" by simp
  from Cons.IH[OF rest, of "series @ [v]" "out @ printed"] obtain vals where
    ls: "load_series fs bd name xs (series @ [v], out @ printed) =
           Inr ((series @ [v]) @ vals, (out @ printed) @ map ?warn (filter ?absent xs))" and
    len: "length vals = length xs" and
    pos: "\<forall>i < length xs. (vals ! i = None) = ?absent (xs ! i)"
    by blast
  have out_eq: "(out @ printed) @ map ?warn (filter ?absent xs) = out @ map ?warn (filter ?absent (x # xs))"
    using c by auto
  have v_eq: "(v = None) = ?absent x" using c by auto
  have run: "load_series fs bd name (x # xs) (series, out) =
          Inr (series @ (v # vals), out @ map ?warn (filter ?absent (x # xs)))"
    using r vp ls out_eq by simp
  have pos': "\<forall>i < length (x # xs). ((v # vals) ! i = None) = ?absent ((x # xs) ! i)"
  proof (intro allI impI)
    fix i assume "i < length (x # xs)"
    then show "((v # vals) ! i = None) = ?absent ((x # xs) ! i)"
      using v_eq pos by (cases i) simp_all
  qed
  show ?case
    using run len pos' by (intro exI[of _ "v # vals"]) simp
qed

lemma load_series_total:
  assumes "\<forall>fr \<in> set frs. \<forall>e. load_cell fs bd (name fr) \<noteq> Inl e"
  shows "\<exists>r. load_series fs bd name frs (series, out) = Inr r"
  using load_series_closed_form[OF assms, of series out] by blast

lemma load_optimized_total:
  assumes "\<forall>idx \<in> set idxs. \<forall>fr \<in> set invalid_fractions. \<forall>e.
             load_cell fs bd (optimized_name variant idx fr) \<noteq> Inl e"
  shows "\<exists>r. load_optimized fs bd variant idxs (opt, out) = Inr r"
  using assms
proof (induction idxs arbitrary: opt out)
  case Nil
  then show ?case by simp
next
  case (Cons x xs)
  from Cons.prems have "\<forall>fr \<in> set invalid_fractions. \<forall>e.
      load_cell fs bd (optimized_name variant x fr) \<noteq> Inl e" by simp
  from load_series_total[OF this, of "[]" out] obtain r where
    r: "load_series fs bd (optimized_name variant x) invalid_fractions ([], out) = Inr r" by blast
  obtain series out' where so: "r = (series, out')" by (cases r)
  from Cons.prems have "\<forall>idx \<in> set xs. \<forall>fr \<in> set invalid_fractions. \<forall>e.
      load_cell fs bd (optimized_name variant idx fr) \<noteq> Inl e" by simp
  from Cons.IH[OF this, of "opt @ [(x, series)]" out'] r so show ?case by simp
qed

lemma load_results_total:
  assumes "\<forall>variant \<in> set vs. \<forall>fr \<in> set invalid_fractions.
             (\<forall>e. load_cell fs bd (baseline_name variant fr) \<noteq> Inl e) \<and>
             (\<forall>idx \<in> set index_counts. \<forall>e.
                load_cell fs bd (optimized_name variant idx fr) \<noteq> Inl e)"
  shows "\<exists>r. load_results fs bd vs (results, out) = Inr r"
  using assms
proof (induction vs arbitrary: results out)
  case Nil
  then show ?case by simp
next
  case (Cons x xs)
  from Cons.prems have b: "\<forall>fr \<in> set invalid_fractions. \<forall>e.
      load_cell fs bd (baseline_name x fr) \<noteq> Inl e" by simp
  from load_series_total[OF this, of "[]" out] obtain r where
    r: "load_series fs bd (baseline_name x) invalid_fractions ([], out) = Inr r" by blast
  obtain b1 out1 where so: "r = (b1, out1)" by (cases r)
  from Cons.prems have o: "\<forall>idx \<in> set index_counts. \<forall>fr \<in> set invalid_fractions. \<forall>e.
      load_cell fs bd (optimized_name x idx fr) \<noteq> Inl e" by simp
  from load_optimized_total[OF this, of "[]" out1] obtain r2 where
    r2: "load_optimized fs bd x index_counts ([], out1) = Inr r2" by blast
  obtain opt out2 where so2: "r2 = (opt, out2)" by (cases r2)
  from Cons.prems have rest: "\<forall>variant \<in> set xs. \<forall>fr \<in> set invalid_fractions.
             (\<forall>e. load_cell fs bd (baseline_name variant fr) \<noteq> Inl e) \<and>
             (\<forall>idx \<in> set index_counts. \<forall>e.
                load_cell fs bd (optimized_name variant idx fr) \<noteq> Inl e)" by simp
  from Cons.IH[OF rest, of "results @ [(x, \<lparr>baseline = b1, optimized = opt\<rparr>)]" out2]
    r so r2 so2 show ?case by simp
qed

lemma main_stream_total:
  assumes ex: "exists_path fs stream_base_dir"
    and ok: "\<forall>variant \<in> set variants. \<forall>fr \<in> set invalid_fractions.
             (\<forall>e. load_cell fs stream_base_dir (baseline_name variant fr) \<noteq> Inl e) \<and>
             (\<forall>idx \<in> set index_counts. \<forall>e.
                load_cell fs stream_base_dir (optimized_name variant idx fr) \<noteq> Inl e)"
  shows "\<exists>r. main_stream fs = Inr r"
proof -
  from load_results_total[OF ok, of "[]" "[Text ''Starting benchmark plot generation...'']"]
  obtain r where r: "load_results fs stream_base_dir variants
      ([], [Text ''Starting benchmark plot generation...'']) = Inr r" by blast
  obtain results out where "r = (results, out)" by (cases r)
  with r ex show ?thesis by (simp add: main_stream_def Let_def)
qed

text \<open>
  C8 (amended). In the stream-verification analysis, for every control value of the
  domain, in domain order, series construction calls the loader; when the loader reports
  an absent cell, \<open>None\<close> is appended at that control value's position and a warning is
  printed, and the run goes on: as long as no record is malformed the series has one
  entry per control value and the whole loading and plotting ends normally. In the
  fverify analyses a control value whose directory does not exist is passed over
  without calling the loader: nothing is appended and nothing is printed.
\<close>

theorem series_marks_missing_cells:
  assumes ok: "\<forall>fr \<in> set frs. \<forall>e. load_cell fs base_dir (subdir_name fr) \<noteq> Inl e"
  shows
   "(\<exists>vals. load_series fs base_dir subdir_name frs (series, out) =
       Inr (series @ vals,
            out @ map (\<lambda>fr. Text (''Warning: Missing data for '' @ subdir_name fr))
                    (filter (\<lambda>fr. load_criterion_estimate_stream fs (base_dir @ [subdir_name fr]) = Inr None)
                       frs)) \<and>
       length vals = length frs \<and>
       (\<forall>i < length frs. (vals ! i = None) =
          (load_criterion_estimate_stream fs (base_dir @ [subdir_name (frs ! i)]) = Inr None))) \<and>
    (exists_path fs stream_base_dir \<and>
     (\<forall>variant \<in> set variants. \<forall>fr \<in> set invalid_fractions.
        (\<forall>e. load_cell fs stream_base_dir (baseline_name variant fr) \<noteq> Inl e) \<and>
        (\<forall>idx \<in> set index_counts. \<forall>e.
           load_cell fs stream_base_dir (optimized_name variant idx fr) \<noteq> Inl e)) \<longrightarrow>
       (\<exists>r. main_stream fs = Inr r)) \<and>
    (\<not> exists_path fs (fverify_path bits n) \<longrightarrow>
       load_fverify_data fs bits (n # ns) (fverify_data, printed) =
       load_fverify_data fs bits ns (fverify_data, printed))"
proof (intro conjI impI)
  show "\<exists>vals. load_series fs base_dir subdir_name frs (series, out) =
       Inr (series @ vals,
            out @ map (\<lambda>fr. Text (''Warning: Missing data for '' @ subdir_name fr))
                    (filter (\<lambda>fr. load_criterion_estimate_stream fs (base_dir @ [subdir_name fr]) = Inr None)
                       frs)) \<and>
       length vals = length frs \<and>
       (\<forall>i < length frs. (vals ! i = None) =
          (load_criterion_estimate_stream fs (base_dir @ [subdir_name (frs ! i)]) = Inr None))"
    by (rule load_series_closed_form[OF ok])
next
  assume a: "exists_path fs stream_base_dir \<and>
     (\<forall>variant \<in> set variants. \<forall>fr \<in> set invalid_fractions.
        (\<forall>e. load_cell fs stream_base_dir (baseline_name variant fr) \<noteq> Inl e) \<and>
        (\<forall>idx \<in> set index_counts. \<forall>e.
           load_cell fs stream_base_dir (optimized_name variant idx fr) \<noteq> Inl e))"
  show "\<exists>r. main_stream fs = Inr r"
    by (rule main_stream_total[OF conjunct1[OF a] conjunct2[OF a]])
next
  assume "\<not> exists_path fs (fverify_path bits n)"
  then show "load_fverify_data fs bits (n # ns) (fverify_data, printed) =
       load_fverify_data fs bits ns (fverify_data, printed)"
    by simp
qed

text \<open>Evaluation of the stream-verification loop on example stores.\<close>

lemmas stream_eval =
  load_cell_def load_criterion_estimate_stream_def estimates_path_def exists_path_def
  read_mean_def open_read_def json_load_def truthy_def getitem_dict_def py_truediv_def
  mean_only_record_def full_record_def Let_def

text \<open>
  A store with the cell for the fraction \<open>0.10\<close> only, and the domain \<open>[0.01, 0.10]\<close>: the
  series is \<open>[None, 10]\<close> with one warning.
\<close>

theorem series_marks_missing_cells_witness:
  "load_cell
     (map_of [([''s'', ''falcon512_baseline_invalid_0.10'', ''new'', ''estimates.json''],
               File (Parsed (mean_only_record 10000000)))])
     [''s''] (baseline_name ''falcon512'' (1 / 100)) =
     Inr (None, [Text ''Warning: Missing data for falcon512_baseline_invalid_0.01'']) \<and>
   load_cell
     (map_of [([''s'', ''falcon512_baseline_invalid_0.10'', ''new'', ''estimates.json''],
               File (Parsed (mean_only_record 10000000)))])
     [''s''] (baseline_name ''falcon512'' (1 / 10)) = Inr (Some 10, []) \<and>
   (\<exists>vals.
      load_series
        (map_of [([''s'', ''falcon512_baseline_invalid_0.10'', ''new'', ''estimates.json''],
                  File (Parsed (mean_only_record 10000000)))])
        [''s''] (baseline_name ''falcon512'') [1 / 100, 1 / 10] ([], []) =
        Inr (vals, [Text ''Warning: Missing data for falcon512_baseline_invalid_0.01'']) \<and>
      length vals = 2 \<and> vals ! 0 = None \<and> vals ! 1 \<noteq> None)"
proof -
  let ?fs = "map_of [([''s'', ''falcon512_baseline_invalid_0.10'', ''new'', ''estimates.json''],
                  File (Parsed (mean_only_record 10000000)))]"
  let ?name = "baseline_name ''falcon512''"
  have n1: "?name (1 / 100) = ''falcon512_baseline_invalid_0.01''"
    and n2: "?name (1 / 10) = ''falcon512_baseline_invalid_0.10''"
    by code_simp+
  have c1: "load_cell ?fs [''s''] (?name (1 / 100)) =
     Inr (None, [Text ''Warning: Missing data for falcon512_baseline_invalid_0.01''])"
    by (simp add: n1 stream_eval)
  have c2: "load_cell ?fs [''s''] (?name (1 / 10)) = Inr (Some 10, [])"
    by (simp add: n2 stream_eval)
  have a1: "load_criterion_estimate_stream ?fs ([''s''] @ [?name (1 / 100)]) = Inr None"
    by (simp add: n1 stream_eval)
  have a2: "load_criterion_estimate_stream ?fs ([''s''] @ [?name (1 / 10)]) \<noteq> Inr None"
    by (simp add: n2 stream_eval)
  have ok: "\<forall>fr \<in> set [1 / 100, 1 / 10]. \<forall>e. load_cell ?fs [''s''] (?name fr) \<noteq> Inl e"
    using c1 c2 by simp
  from series_marks_missing_cells [of "[1 / 100, 1 / 10]" ?fs "[''s'']" ?name "[]" "[]", OF ok]
  obtain vals where
    run: "load_series ?fs [''s''] ?name [1 / 100, 1 / 10] ([], []) =
       Inr ([] @ vals,
            [] @ map (\<lambda>fr. Text (''Warning: Missing data for '' @ ?name fr))
                    (filter (\<lambda>fr. load_criterion_estimate_stream ?fs ([''s''] @ [?name fr]) = Inr None)
                       [1 / 100, 1 / 10]))" and
    len: "length vals = length [1 / 100, 1 / 10 :: rat]" and
    pos: "\<forall>i < length [1 / 100, 1 / 10 :: rat]. (vals ! i = None) =
          (load_criterion_estimate_stream ?fs ([''s''] @ [?name ([1 / 100, 1 / 10] ! i)]) = Inr None)"
    by blast
  from run a1 a2 have run': "load_series ?fs [''s''] ?name [1 / 100, 1 / 10] ([], []) =
       Inr (vals, [Text ''Warning: Missing data for falcon512_baseline_invalid_0.01''])"
    by (simp add: n1)
  from pos a1 have v0: "vals ! 0 = None" by auto
  from pos[rule_format, of 1] a2 have v1: "vals ! 1 \<noteq> None" by simp
  from len have len': "length vals = 2" by simp
  show ?thesis using c1 c2 run' len' v0 v1 by blast
qed

text \<open>
  C8 as stated fails for the fverify-1024 analysis: on a store where no cell was
  benchmarked, the eight control values give an empty series and no diagnostic, not
  eight missing markers.
\<close>

theorem fverify_series_skips_missing_cells:
  "load_fverify_data (\<lambda>p. None) ''1024'' index_counts_1024 ([], []) = Inr ([], [])"
  by (simp add: index_counts_1024_def exists_path_def)

text \<open>
  C7 as stated fails: a store with the records \<open>(mean 10 ms, ci [8, 12])\<close> and
  \<open>(mean 12 ms, ci [9, 15])\<close> and one cell missing. The loader hands on the mean alone,
  the series is \<open>[None, 10, 12]\<close>, and all that the reduction yields and draws is the
  median \<open>11\<close>; no half-width \<open>3.5\<close> is computed.
\<close>

theorem reduce_has_no_half_width:
  "load_criterion_estimate_stream
     (map_of [([''s'', ''falcon512_baseline_invalid_0.10'', ''new'', ''estimates.json''],
               File (Parsed (full_record 10000000 8000000 12000000))),
              ([''s'', ''falcon512_baseline_invalid_0.50'', ''new'', ''estimates.json''],
               File (Parsed (full_record 12000000 9000000 15000000)))])
     [''s'', ''falcon512_baseline_invalid_0.10''] = Inr (Some [(''mean'', JNum 10000000)]) \<and>
   load_series
     (map_of [([''s'', ''falcon512_baseline_invalid_0.10'', ''new'', ''estimates.json''],
               File (Parsed (full_record 10000000 8000000 12000000))),
              ([''s'', ''falcon512_baseline_invalid_0.50'', ''new'', ''estimates.json''],
               File (Parsed (full_record 12000000 9000000 15000000)))])
     [''s''] (baseline_name ''falcon512'') [1 / 100, 1 / 10, 1 / 2] ([], []) =
     Inr ([None, Some 10, Some 12],
          [Text ''Warning: Missing data for falcon512_baseline_invalid_0.01'']) \<and>
   plot_variant \<lparr>baseline = [None, Some 10, Some 12], optimized = []\<rparr> =
     (Fin 11, [AxHLine (Fin 11)])"
proof -
  have n1: "baseline_name ''falcon512'' (1 / 100) = ''falcon512_baseline_invalid_0.01''"
    and n2: "baseline_name ''falcon512'' (1 / 10) = ''falcon512_baseline_invalid_0.10''"
    and n3: "baseline_name ''falcon512'' (1 / 2) = ''falcon512_baseline_invalid_0.50''"
    by code_simp+
  have p: "plot_variant \<lparr>baseline = [None, Some 10, Some 12], optimized = []\<rparr> =
     (Fin 11, [AxHLine (Fin 11)])"
    by (simp add: plot_variant_def Let_def nanmedian_def np_sort_def nan_if_none_def)
  show ?thesis
    by (simp add: n1 n2 n3 p stream_eval)
qed

end
